theory Spec2Isabelle
  imports Complex_Main
begin

section \<open>Conventions\<close>

text \<open>
  The synthesis engine (\<^verbatim>\<open>generateSynthesizedData\<close>) and its numerical helpers
  (\<^verbatim>\<open>mathUtils.ts\<close>) are embedded function by function.

  \<^item> A JavaScript \<^verbatim>\<open>number\<close> is modelled as a \<^typ>\<open>real\<close>: arithmetic is exact, and there is
    no rounding, no \<^verbatim>\<open>NaN\<close> and no infinity. Where the source would produce a non-finite
    number (a division by zero, the logarithm or the square root of a number outside the
    domain, the summary of an empty path) the theorems below carry the hypotheses that
    exclude it, or the model returns \<open>None\<close>.
    In particular \<open>exp\<close> never underflows to 0 and no product is rounded, so an
    inequality that holds here by a margin of one rounding error need not hold of the
    doubles, and a bound proved here is read as a bound in exact arithmetic.
  \<^item> Limits of the JavaScript engine are not modelled: \<^verbatim>\<open>Math.min(...data)\<close> and
    \<^verbatim>\<open>Math.max(...data)\<close> raise \<^verbatim>\<open>RangeError\<close> beyond the engine's argument limit (paths of
    about 125000 points). The parameter form accepts at most 5000 steps, and the facts
    below that say a run returns are stated for at most 5000 steps.
  \<^item> An optional field (\<^verbatim>\<open>mu?: number\<close>) is an \<^typ>\<open>'a option\<close>, \<open>None\<close> for \<^verbatim>\<open>undefined\<close>.
  \<^item> \<^verbatim>\<open>Math.random()\<close> reads the next element of an explicit list of uniform draws, which
    is threaded through the engine; a list that runs out gives \<open>None\<close>.
  \<^item> \<^verbatim>\<open>new Date()\<close> and the time zone are read from an explicit host environment.
\<close>

section \<open>types.ts\<close>

datatype ModelType =
  EQUITY_GBM | EQUITY_MERTON_JUMP | INTEREST_RATE_VASICEK | INTEREST_RATE_CIR
  | MACRO_INFLATION | OU_PROCESS

datatype AssetClass =
  EQUITY | FIXED_INCOME | FX | COMMODITY | FORWARD | FUTURE | OPTION | SWAP | SWAPTION
  | CENTRAL_BANK_RATE | INFLATION_RATE | UNEMPLOYMENT_RATE | TOTAL_PRODUCTIVITY | GDP_GROWTH

text \<open>The five sensitivities as the two pricers return them (every field set).\<close>

record Greeks =
  delta :: real
  gamma :: real
  vega :: real
  thetaGreek :: real
  rhoGreek :: real

text \<open>The object \<^verbatim>\<open>{ price, greeks }\<close> returned by both pricers.\<close>

record Priced =
  price :: real
  greeks :: Greeks

record CorrelationFactors =
  equity :: "real option"
  rates :: "real option"
  volatility :: "real option"
  commodity :: "real option"

record SynthesisParameters =
  modelType :: ModelType
  assetClass :: AssetClass
  initialValue :: real
  timeHorizon :: real
  dt :: real
  mu :: "real option"
  sigma :: "real option"
  kappa :: "real option"
  theta :: "real option"
  correlations :: "CorrelationFactors option"
  dividendYield :: "real option"
  peRatio :: "real option"
  expectedEarnings :: "real option"
  foreignRate :: "real option"
  domesticRate :: "real option"
  convenienceYield :: "real option"
  storageCost :: "real option"
  seasonalAmplitude :: "real option"
  creditSpread :: "real option"
  cdsSpread :: "real option"
  baseRate :: "real option"
  strikePrice :: "real option"
  riskFreeRate :: "real option"
  expiryTime :: "real option"
  isCall :: "bool option"
  impliedVol :: "real option"
  lambda :: "real option"
  jumpMu :: "real option"
  jumpSigma :: "real option"

text \<open>
  A \<^verbatim>\<open>DataPoint\<close>. The source's field \<^verbatim>\<open>value\<close> is \<open>displayValue\<close> here, and its fields
  \<^verbatim>\<open>peRatio\<close>, \<^verbatim>\<open>expectedEarnings\<close> and \<^verbatim>\<open>greeks\<close> carry the names of the local variables
  the engine stores in them (\<open>pointPe\<close>, \<open>pointEarnings\<close>, \<open>pointGreeks\<close>), since a record
  of parameters above already owns the source names. The \<open>timestamp\<close> is the number of
  the UTC day whose rendering \<^verbatim>\<open>YYYY-MM-DD\<close> is the source's string.
\<close>

record DataPoint =
  timestamp :: int
  displayValue :: real
  underlyingValue :: real
  secondaryValue :: "real option"
  pointPe :: "real option"
  pointEarnings :: "real option"
  benchmarkValue :: real
  pointGreeks :: "Greeks option"
  index :: nat

record Summary =
  max_summary :: real
  min_summary :: real
  avg :: real
  vol :: real

text \<open>
  The summary of an empty path is \<^verbatim>\<open>{max: -Infinity, min: Infinity, avg: NaN, vol: NaN}\<close>
  in the source; it is \<open>None\<close> here.
\<close>

record SynthesisResult =
  parameters :: SynthesisParameters
  data :: "DataPoint list"
  summary :: "Summary option"

section \<open>mathUtils.ts\<close>

text \<open>\<^verbatim>\<open>Math.random()\<close>: the next uniform draw.\<close>

fun mathRandom :: "real list \<Rightarrow> (real \<times> real list) option" where
  "mathRandom [] = None"
| "mathRandom (x # rng) = Some (x, rng)"

text \<open>\<^verbatim>\<open>let u = 0; while (u === 0) u = Math.random();\<close>\<close>

fun drawNonZero :: "real list \<Rightarrow> (real \<times> real list) option" where
  "drawNonZero [] = None"
| "drawNonZero (x # rng) = (if x = 0 then drawNonZero rng else Some (x, rng))"

definition getStandardNormal :: "real list \<Rightarrow> (real \<times> real list) option" where
  "getStandardNormal rng =
     (case drawNonZero rng of
        None \<Rightarrow> None
      | Some (u, rng1) \<Rightarrow>
          (case drawNonZero rng1 of
             None \<Rightarrow> None
           | Some (v, rng2) \<Rightarrow> Some (sqrt (- 2 * ln u) * cos (2 * pi * v), rng2)))"

definition calculateSummary :: "real list \<Rightarrow> Summary option" where
  "calculateSummary xs =
     (case xs of
        [] \<Rightarrow> None
      | x # rest \<Rightarrow>
          (let sum = foldl (\<lambda>a b. a + b) 0 xs;
               avg = sum / real (length xs);
               mn = fold min rest x;
               mx = fold max rest x;
               variance = foldl (\<lambda>a b. a + (b - avg) ^ 2) 0 xs / real (length xs);
               vol = sqrt variance
           in Some \<lparr>max_summary = mx, min_summary = mn, avg = avg, vol = vol\<rparr>))"

definition CND :: "real \<Rightarrow> real" where
  "CND x =
     (let a1 = 0.31938153; a2 = - 0.356563782; a3 = 1.781477937;
          a4 = - 1.821255978; a5 = 1.330274429;
          L = \<bar>x\<bar>;
          K = 1 / (1 + 0.2316419 * L);
          w = 1 - 1 / sqrt (2 * pi) * exp (- L * L / 2)
                * (a1 * K + a2 * K * K + a3 * K ^ 3 + a4 * K ^ 4 + a5 * K ^ 5)
      in if x < 0 then 1 - w else w)"

definition normalPDF :: "real \<Rightarrow> real" where
  "normalPDF x = (1 / sqrt (2 * pi)) * exp (- 0.5 * x * x)"

definition calculateBS :: "real \<Rightarrow> real \<Rightarrow> real \<Rightarrow> real \<Rightarrow> real \<Rightarrow> bool \<Rightarrow> Priced" where
  "calculateBS S K T r sg call =
     (if T \<le> 0 then
        \<lparr>price = max 0 (if call then S - K else K - S),
         greeks = \<lparr>delta = (if call then (if S > K then 1 else 0)
                             else (if S < K then - 1 else 0)),
                   gamma = 0, vega = 0, thetaGreek = 0, rhoGreek = 0\<rparr>\<rparr>
      else
        (let d1 = (ln (S / K) + (r + sg * sg / 2) * T) / (sg * sqrt T);
             d2 = d1 - sg * sqrt T;
             pr = (if call then S * CND d1 - K * exp (- r * T) * CND d2
                   else K * exp (- r * T) * CND (- d2) - S * CND (- d1));
             dl = (if call then CND d1 else CND d1 - 1);
             gm = normalPDF d1 / (S * sg * sqrt T);
             vg = S * normalPDF d1 * sqrt T;
             th = (if call
                   then - (S * normalPDF d1 * sg) / (2 * sqrt T) - r * K * exp (- r * T) * CND d2
                   else - (S * normalPDF d1 * sg) / (2 * sqrt T) + r * K * exp (- r * T) * CND (- d2));
             rh = (if call then K * T * exp (- r * T) * CND d2
                   else - K * T * exp (- r * T) * CND (- d2))
         in \<lparr>price = pr,
             greeks = \<lparr>delta = dl, gamma = gm, vega = vg, thetaGreek = th, rhoGreek = rh\<rparr>\<rparr>))"

text \<open>The values \<^verbatim>\<open>d1\<close> and \<^verbatim>\<open>d2\<close> of \<^const>\<open>calculateBS\<close> for \<open>T > 0\<close>.\<close>

definition bsD1 :: "real \<Rightarrow> real \<Rightarrow> real \<Rightarrow> real \<Rightarrow> real \<Rightarrow> real" where
  "bsD1 S K T r sg = (ln (S / K) + (r + sg * sg / 2) * T) / (sg * sqrt T)"

definition bsD2 :: "real \<Rightarrow> real \<Rightarrow> real \<Rightarrow> real \<Rightarrow> real \<Rightarrow> real" where
  "bsD2 S K T r sg = bsD1 S K T r sg - sg * sqrt T"

definition calculateBlackSwaption :: "real \<Rightarrow> real \<Rightarrow> real \<Rightarrow> real \<Rightarrow> real \<Rightarrow> bool \<Rightarrow> Priced" where
  "calculateBlackSwaption F K T r sg isPayer =
     (if T \<le> 0 then
        \<lparr>price = max 0 (if isPayer then F - K else K - F),
         greeks = \<lparr>delta = (if isPayer then (if F > K then 1 else 0)
                             else (if F < K then - 1 else 0)),
                   gamma = 0, vega = 0, thetaGreek = 0, rhoGreek = 0\<rparr>\<rparr>
      else
        (let d1 = (ln (F / K) + (sg * sg / 2) * T) / (sg * sqrt T);
             d2 = d1 - sg * sqrt T;
             annuity = (1 - exp (- r * 5)) / r;
             pr = annuity * exp (- r * T)
                    * (if isPayer then F * CND d1 - K * CND d2 else K * CND (- d2) - F * CND (- d1));
             dl = (if isPayer then exp (- r * T) * CND d1 else - exp (- r * T) * CND (- d1));
             gm = (exp (- r * T) * normalPDF d1) / (F * sg * sqrt T);
             vg = annuity * exp (- r * T) * F * normalPDF d1 * sqrt T;
             th = - (annuity * exp (- r * T) * F * normalPDF d1 * sg) / (2 * sqrt T);
             rh = - T * pr
         in \<lparr>price = pr,
             greeks = \<lparr>delta = dl, gamma = gm, vega = vg, thetaGreek = th, rhoGreek = rh\<rparr>\<rparr>))"

section \<open>The host: clock, time zone and calendar\<close>

text \<open>
  The engine reads the clock (\<^verbatim>\<open>new Date()\<close>) and, through \<^verbatim>\<open>getDate\<close>, \<^verbatim>\<open>setDate\<close>
  and \<^verbatim>\<open>toISOString\<close>, the time zone and the calendar of the host it runs on. They are
  the fields of a record: \<open>now\<close> is the time value of \<^verbatim>\<open>new Date()\<close> (milliseconds since
  the epoch, UTC), \<open>tzaOfUTC t\<close> and \<open>tzaOfLocal t\<close> are the offsets \<^verbatim>\<open>LocalTZA(t, true)\<close>
  and \<^verbatim>\<open>LocalTZA(t, false)\<close> of ECMAScript (local minus UTC, in milliseconds, at a UTC and
  at a local time value), and \<open>monthStart d\<close> is the number of the first day of the
  calendar month that holds day number \<open>d\<close>.
\<close>

record Host =
  now :: int
  tzaOfUTC :: "int \<Rightarrow> int"
  tzaOfLocal :: "int \<Rightarrow> int"
  monthStart :: "int \<Rightarrow> int"

datatype error = RangeError

definition msPerDay :: int where
  "msPerDay = 86400000"

definition Day :: "int \<Rightarrow> int" where
  "Day t = t div msPerDay"

definition TimeWithinDay :: "int \<Rightarrow> int" where
  "TimeWithinDay t = t mod msPerDay"

definition LocalTime :: "Host \<Rightarrow> int \<Rightarrow> int" where
  "LocalTime h t = t + tzaOfUTC h t"

definition UTC :: "Host \<Rightarrow> int \<Rightarrow> int" where
  "UTC h t = t - tzaOfLocal h t"

text \<open>\<^verbatim>\<open>TimeClip\<close>: a time value beyond 8.64e15 ms is \<^verbatim>\<open>NaN\<close> (an invalid date), \<open>None\<close> here.\<close>

definition TimeClip :: "int \<Rightarrow> int option" where
  "TimeClip t = (if \<bar>t\<bar> > 8640000000000000 then None else Some t)"

text \<open>\<^verbatim>\<open>Date.prototype.getDate\<close>: the day of the month of the local time.\<close>

definition getDate :: "Host \<Rightarrow> int \<Rightarrow> int" where
  "getDate h tv = (let t = LocalTime h tv in Day t - monthStart h (Day t) + 1)"

text \<open>
  \<^verbatim>\<open>Date.prototype.setDate(date)\<close>: \<^verbatim>\<open>MakeDay\<close> of the local year and month of the date and
  the day \<open>dte\<close> of that month (days beyond the month roll over), at the same local time
  of day, converted back to UTC and clipped.
\<close>

definition setDate :: "Host \<Rightarrow> int \<Rightarrow> int \<Rightarrow> int option" where
  "setDate h tv dte =
     (let t = LocalTime h tv;
          newDay = monthStart h (Day t) + dte - 1;
          newDate = newDay * msPerDay + TimeWithinDay t
      in TimeClip (UTC h newDate))"

text \<open>
  \<^verbatim>\<open>toISOString().split('T')[0]\<close>: the UTC calendar date, as a day number; an invalid date
  raises \<^verbatim>\<open>RangeError\<close>.
\<close>

definition toISODate :: "int option \<Rightarrow> error + int" where
  "toISODate d = (case d of None \<Rightarrow> Inl RangeError | Some tv \<Rightarrow> Inr (Day tv))"

section \<open>The synthesis engine\<close>

subsection \<open>Destructuring with defaults\<close>

definition dflt :: "'a \<Rightarrow> 'a option \<Rightarrow> 'a" where
  "dflt d v = (case v of None \<Rightarrow> d | Some x \<Rightarrow> x)"

text \<open>\<^verbatim>\<open>a || b\<close> on a number \<open>a\<close>: zero is falsy.\<close>

definition orElse :: "real \<Rightarrow> real \<Rightarrow> real" where
  "orElse a b = (if a = 0 then b else a)"

definition mu' :: "SynthesisParameters \<Rightarrow> real" where "mu' p = dflt 0.05 (mu p)"
definition sigma' :: "SynthesisParameters \<Rightarrow> real" where "sigma' p = dflt 0.2 (sigma p)"
definition kappa' :: "SynthesisParameters \<Rightarrow> real" where "kappa' p = dflt 2.0 (kappa p)"
definition theta' :: "SynthesisParameters \<Rightarrow> real" where "theta' p = dflt 0.05 (theta p)"
definition lambda' :: "SynthesisParameters \<Rightarrow> real" where "lambda' p = dflt 0 (lambda p)"
definition jumpMu' :: "SynthesisParameters \<Rightarrow> real" where "jumpMu' p = dflt 0 (jumpMu p)"
definition jumpSigma' :: "SynthesisParameters \<Rightarrow> real" where "jumpSigma' p = dflt 0 (jumpSigma p)"
definition dividendYield' :: "SynthesisParameters \<Rightarrow> real" where
  "dividendYield' p = dflt 0 (dividendYield p)"
definition peRatio' :: "SynthesisParameters \<Rightarrow> real" where "peRatio' p = dflt 15 (peRatio p)"
definition expectedEarnings' :: "SynthesisParameters \<Rightarrow> real" where
  "expectedEarnings' p = dflt 5.0 (expectedEarnings p)"
definition foreignRate' :: "SynthesisParameters \<Rightarrow> real" where
  "foreignRate' p = dflt 0 (foreignRate p)"
definition domesticRate' :: "SynthesisParameters \<Rightarrow> real" where
  "domesticRate' p = dflt 0 (domesticRate p)"
definition convenienceYield' :: "SynthesisParameters \<Rightarrow> real" where
  "convenienceYield' p = dflt 0 (convenienceYield p)"
definition storageCost' :: "SynthesisParameters \<Rightarrow> real" where
  "storageCost' p = dflt 0 (storageCost p)"
definition seasonalAmplitude' :: "SynthesisParameters \<Rightarrow> real" where
  "seasonalAmplitude' p = dflt 0 (seasonalAmplitude p)"
definition creditSpread' :: "SynthesisParameters \<Rightarrow> real" where
  "creditSpread' p = dflt 0.01 (creditSpread p)"
definition cdsSpread' :: "SynthesisParameters \<Rightarrow> real" where "cdsSpread' p = dflt 0 (cdsSpread p)"
definition strikePrice' :: "SynthesisParameters \<Rightarrow> real" where
  "strikePrice' p = dflt 100 (strikePrice p)"
definition riskFreeRate' :: "SynthesisParameters \<Rightarrow> real" where
  "riskFreeRate' p = dflt 0.03 (riskFreeRate p)"
definition expiryTime' :: "SynthesisParameters \<Rightarrow> real" where
  "expiryTime' p = dflt 1.0 (expiryTime p)"
definition isCall' :: "SynthesisParameters \<Rightarrow> bool" where "isCall' p = dflt True (isCall p)"
definition impliedVol' :: "SynthesisParameters \<Rightarrow> real" where
  "impliedVol' p = dflt 0.2 (impliedVol p)"
definition correlations' :: "SynthesisParameters \<Rightarrow> CorrelationFactors" where
  "correlations' p =
     dflt \<lparr>equity = None, rates = None, volatility = None, commodity = None\<rparr> (correlations p)"

subsection \<open>Values fixed before the loop\<close>

text \<open>\<^verbatim>\<open>const pricingVol = impliedVol || sigma;\<close>\<close>

definition pricingVol :: "SynthesisParameters \<Rightarrow> real" where
  "pricingVol p = orElse (impliedVol' p) (sigma' p)"

definition marketMu :: real where "marketMu = 0.06"
definition marketSigma :: real where "marketSigma = 0.15"

definition effectiveMu :: "SynthesisParameters \<Rightarrow> real" where
  "effectiveMu p =
     (if assetClass p = EQUITY then mu' p - dividendYield' p
      else if assetClass p = FX then mu' p + (domesticRate' p - foreignRate' p)
      else if assetClass p = COMMODITY then mu' p + (storageCost' p - convenienceYield' p)
      else if assetClass p = FORWARD \<or> assetClass p = FUTURE
        then riskFreeRate' p - dividendYield' p
      else if assetClass p = UNEMPLOYMENT_RATE then 0
      else mu' p)"

text \<open>
  The keys of a \<^verbatim>\<open>CorrelationFactors\<close> object. \<^verbatim>\<open>Object.keys\<close> lists the fields that are
  present; the sum below does not depend on their order.
\<close>

datatype FactorKey = Equity | Rates | Volatility | Commodity

fun factor :: "CorrelationFactors \<Rightarrow> FactorKey \<Rightarrow> real option" where
  "factor c Equity = equity c"
| "factor c Rates = rates c"
| "factor c Volatility = volatility c"
| "factor c Commodity = commodity c"

definition objectKeys :: "CorrelationFactors \<Rightarrow> FactorKey list" where
  "objectKeys c = filter (\<lambda>k. factor c k \<noteq> None) [Equity, Rates, Volatility, Commodity]"

text \<open>\<^verbatim>\<open>factorKeys.reduce((acc, k) => acc + (correlations[k] || 0), 0)\<close>\<close>

definition factorSum :: "CorrelationFactors \<Rightarrow> FactorKey list \<Rightarrow> real" where
  "factorSum c ks = foldl (\<lambda>acc k. acc + orElse (dflt 0 (factor c k)) 0) 0 ks"

definition rho :: "SynthesisParameters \<Rightarrow> real" where
  "rho p =
     (let factorKeys = objectKeys (correlations' p)
      in if length factorKeys > 0
         then max (- 1) (min 1 (factorSum (correlations' p) factorKeys))
         else 0)"

subsection \<open>The loop body, up to \<^verbatim>\<open>data.push\<close>\<close>

text \<open>
  \<^verbatim>\<open>const currentDate = new Date(startDate); currentDate.setDate(startDate.getDate() + i);\<close>
\<close>

definition currentDate :: "Host \<Rightarrow> int \<Rightarrow> nat \<Rightarrow> int option" where
  "currentDate h startDate i = setDate h startDate (getDate h startDate + int i)"

definition seasonalShift :: "SynthesisParameters \<Rightarrow> nat \<Rightarrow> real" where
  "seasonalShift p i =
     (let isMacroSeasonal = (assetClass p \<in> set [COMMODITY, INFLATION_RATE, GDP_GROWTH])
      in if isMacroSeasonal \<and> seasonalAmplitude' p > 0
         then sin (2 * pi * real i / 252) * seasonalAmplitude' p
         else 0)"

text \<open>
  The values the domain-specific branch leaves in \<^verbatim>\<open>displayValue\<close>, \<^verbatim>\<open>greeks\<close>,
  \<^verbatim>\<open>secondary\<close>, \<^verbatim>\<open>pointPe\<close> and \<^verbatim>\<open>pointEarnings\<close>.
\<close>

record Shown =
  shownValue :: real
  shownGreeks :: "Greeks option"
  shownSecondary :: "real option"
  shownPe :: "real option"
  shownEarnings :: "real option"

definition domainLogic :: "SynthesisParameters \<Rightarrow> nat \<Rightarrow> real \<Rightarrow> Shown" where
  "domainLogic p i currentSpot =
     (let T = max 0.0001 (expiryTime' p - real i / 365);
          shift = seasonalShift p i;
          shown = \<lparr>shownValue = currentSpot + shift, shownGreeks = None, shownSecondary = None,
                   shownPe = None, shownEarnings = None\<rparr>
      in if assetClass p = FIXED_INCOME then
           shown\<lparr>shownValue := riskFreeRate' p + creditSpread' p + cdsSpread' p + currentSpot,
                 shownSecondary := Some (cdsSpread' p)\<rparr>
         else if assetClass p = OPTION then
           (let bs = calculateBS currentSpot (strikePrice' p) T (riskFreeRate' p) (pricingVol p)
                       (isCall' p)
            in shown\<lparr>shownValue := price bs, shownGreeks := Some (greeks bs),
                     shownSecondary := Some (strikePrice' p)\<rparr>)
         else if assetClass p = FORWARD \<or> assetClass p = FUTURE then
           shown\<lparr>shownValue := currentSpot * exp ((riskFreeRate' p - dividendYield' p) * T),
                 shownSecondary := Some currentSpot\<rparr>
         else if assetClass p = SWAP then
           shown\<lparr>shownValue := (currentSpot - orElse (strikePrice' p / 1000) 0.03) * 10000,
                 shownSecondary := Some (strikePrice' p)\<rparr>
         else if assetClass p = SWAPTION then
           (let black = calculateBlackSwaption currentSpot (orElse (strikePrice' p / 1000) 0.03) T
                          (riskFreeRate' p) (pricingVol p) (isCall' p)
            in shown\<lparr>shownValue := price black, shownGreeks := Some (greeks black),
                     shownSecondary := Some (strikePrice' p)\<rparr>)
         else if assetClass p = UNEMPLOYMENT_RATE then
           shown\<lparr>shownValue := max 2.0 (currentSpot + shift)\<rparr>
         else if assetClass p = INFLATION_RATE then
           shown\<lparr>shownValue := currentSpot + shift\<rparr>
         else if assetClass p = EQUITY then
           (let earnings = expectedEarnings' p * exp (0.03 * (real i / 252))
            in shown\<lparr>shownEarnings := Some earnings,
                     shownPe := Some ((currentSpot + shift) / earnings)\<rparr>)
         else shown)"

text \<open>The object pushed onto \<^verbatim>\<open>data\<close>; \<^verbatim>\<open>toISOString\<close> may raise.\<close>

definition makePoint ::
  "Host \<Rightarrow> SynthesisParameters \<Rightarrow> int \<Rightarrow> nat \<Rightarrow> real \<Rightarrow> real \<Rightarrow> error + DataPoint" where
  "makePoint h p startDate i currentSpot marketProxy =
     (let shown = domainLogic p i currentSpot
      in case toISODate (currentDate h startDate i) of
           Inl e \<Rightarrow> Inl e
         | Inr day \<Rightarrow>
             Inr \<lparr>timestamp = day,
                  displayValue = shownValue shown,
                  underlyingValue = currentSpot,
                  secondaryValue = shownSecondary shown,
                  pointPe = shownPe shown,
                  pointEarnings = shownEarnings shown,
                  benchmarkValue = marketProxy,
                  pointGreeks = shownGreeks shown,
                  index = i\<rparr>)"

subsection \<open>The loop body, after \<^verbatim>\<open>data.push\<close>\<close>

text \<open>
  \<^verbatim>\<open>const assetEpsilon = (rho * marketEpsilon) + (Math.sqrt(1 - rho * rho) * idiosyncraticEpsilon);\<close>
\<close>

definition assetEpsilon :: "real \<Rightarrow> real \<Rightarrow> real \<Rightarrow> real" where
  "assetEpsilon r marketEpsilon idiosyncraticEpsilon =
     (r * marketEpsilon) + (sqrt (1 - r * r) * idiosyncraticEpsilon)"

text \<open>The \<^verbatim>\<open>switch (modelType)\<close>: the next \<^verbatim>\<open>currentSpot\<close> and the draws left.\<close>

definition evolve ::
  "SynthesisParameters \<Rightarrow> real \<Rightarrow> real \<Rightarrow> real \<Rightarrow> real list \<Rightarrow> (real \<times> real list) option" where
  "evolve p effMu eps currentSpot rng =
     (case modelType p of
        EQUITY_GBM \<Rightarrow>
          (let driftGBM = (effMu - 0.5 * (sigma' p) ^ 2) * dt p;
               diffusionGBM = sigma' p * sqrt (dt p) * eps
           in Some (currentSpot * exp (driftGBM + diffusionGBM), rng))
      | EQUITY_MERTON_JUMP \<Rightarrow>
          (case mathRandom rng of
             None \<Rightarrow> None
           | Some (u, rng1) \<Rightarrow>
               (let jumpOccurred = (u < lambda' p * dt p)
                in case (if jumpOccurred
                         then (case getStandardNormal rng1 of
                                 None \<Rightarrow> None
                               | Some (jumpEpsilon, rng2) \<Rightarrow>
                                   Some (exp (jumpMu' p + jumpSigma' p * jumpEpsilon), rng2))
                         else Some (1.0, rng1)) of
                     None \<Rightarrow> None
                   | Some (jumpFactor, rng3) \<Rightarrow>
                       (let driftMerton = (effMu - 0.5 * (sigma' p) ^ 2) * dt p;
                            diffusionMerton = sigma' p * sqrt (dt p) * eps
                        in Some (currentSpot * exp (driftMerton + diffusionMerton) * jumpFactor,
                                 rng3))))
      | INTEREST_RATE_VASICEK \<Rightarrow>
          (let meanReversionVas = kappa' p * (theta' p - currentSpot) * dt p;
               rateDiffusionVas = sigma' p * sqrt (dt p) * eps
           in Some (currentSpot + meanReversionVas + rateDiffusionVas, rng))
      | INTEREST_RATE_CIR \<Rightarrow>
          (let currentLevel = max currentSpot 0.0001;
               meanReversionCIR = kappa' p * (theta' p - currentLevel) * dt p;
               rateDiffusionCIR = sigma' p * sqrt currentLevel * sqrt (dt p) * eps
           in Some (currentLevel + meanReversionCIR + rateDiffusionCIR, rng))
      | MACRO_INFLATION \<Rightarrow>
          (let ouReversion = kappa' p * (theta' p - currentSpot) * dt p;
               ouNoise = sigma' p * sqrt (dt p) * eps
           in Some (currentSpot + (effMu * dt p) + ouReversion + ouNoise, rng))
      | OU_PROCESS \<Rightarrow>
          (let ouReversion = kappa' p * (theta' p - currentSpot) * dt p;
               ouNoise = sigma' p * sqrt (dt p) * eps
           in Some (currentSpot + (effMu * dt p) + ouReversion + ouNoise, rng)))"

text \<open>
  The two shocks, their coupling, the step of the market proxy and the step of the asset:
  the next \<^verbatim>\<open>currentSpot\<close>, the next \<^verbatim>\<open>marketProxy\<close> and the draws left.
\<close>

definition advance ::
  "SynthesisParameters \<Rightarrow> real \<Rightarrow> real \<Rightarrow> real \<Rightarrow> real \<Rightarrow> real list
     \<Rightarrow> (real \<times> real \<times> real list) option" where
  "advance p effMu r currentSpot marketProxy rng =
     (case getStandardNormal rng of
        None \<Rightarrow> None
      | Some (marketEpsilon, rng1) \<Rightarrow>
          (case getStandardNormal rng1 of
             None \<Rightarrow> None
           | Some (idiosyncraticEpsilon, rng2) \<Rightarrow>
               (let eps = assetEpsilon r marketEpsilon idiosyncraticEpsilon;
                    marketProxy' = marketProxy
                      * exp ((marketMu - 0.5 * marketSigma ^ 2) * dt p
                             + marketSigma * sqrt (dt p) * marketEpsilon)
                in case evolve p effMu eps currentSpot rng2 of
                     None \<Rightarrow> None
                   | Some (currentSpot', rng3) \<Rightarrow> Some (currentSpot', marketProxy', rng3))))"

subsection \<open>The loop and the result\<close>

text \<open>
  \<^verbatim>\<open>for (let i = 0; i <= timeHorizon; i++) { ... }\<close> The result is \<open>None\<close> when the draws
  run out, \<open>Some (Inl RangeError)\<close> when \<^verbatim>\<open>toISOString\<close> raises, and \<open>Some (Inr data)\<close>
  when the loop ends.
\<close>

function synthLoop ::
  "Host \<Rightarrow> SynthesisParameters \<Rightarrow> int \<Rightarrow> real \<Rightarrow> real \<Rightarrow> nat \<Rightarrow> real \<Rightarrow> real
     \<Rightarrow> DataPoint list \<Rightarrow> real list \<Rightarrow> (error + DataPoint list) option" where
  "synthLoop h p startDate effMu r i currentSpot marketProxy dat rng =
     (if real i \<le> timeHorizon p then
        (case makePoint h p startDate i currentSpot marketProxy of
           Inl e \<Rightarrow> Some (Inl e)
         | Inr pt \<Rightarrow>
             (case advance p effMu r currentSpot marketProxy rng of
                None \<Rightarrow> None
              | Some (currentSpot', marketProxy', rng') \<Rightarrow>
                  synthLoop h p startDate effMu r (Suc i) currentSpot' marketProxy'
                    (dat @ [pt]) rng'))
      else Some (Inr dat))"
  by pat_completeness auto
termination
proof (relation "measure (\<lambda>(h, p, startDate, effMu, r, i, rest). nat \<lfloor>timeHorizon p\<rfloor> + 1 - i)")
  show "wf (measure (\<lambda>(h, p, startDate, effMu, r, i, rest). nat \<lfloor>timeHorizon p\<rfloor> + 1 - i))"
    by simp
next
  fix h :: Host and p :: SynthesisParameters and startDate :: int and effMu r :: real
    and i :: nat and currentSpot marketProxy :: real and dat :: "DataPoint list"
    and rng :: "real list" and pt x2 x y xa ya
  assume "real i \<le> timeHorizon p"
  then have "i \<le> nat \<lfloor>timeHorizon p\<rfloor>"
    by (simp add: le_nat_floor)
  then show "((h, p, startDate, effMu, r, Suc i, x, xa, dat @ [pt], ya),
              (h, p, startDate, effMu, r, i, currentSpot, marketProxy, dat, rng))
             \<in> measure (\<lambda>(h, p, startDate, effMu, r, i, rest). nat \<lfloor>timeHorizon p\<rfloor> + 1 - i)"
    by simp
qed

definition generateSynthesizedData ::
  "Host \<Rightarrow> SynthesisParameters \<Rightarrow> real list \<Rightarrow> (error + SynthesisResult) option" where
  "generateSynthesizedData h p rng =
     (let currentSpot = initialValue p;
          marketProxy = initialValue p;
          startDate = now h;
          effMu = effectiveMu p;
          r = rho p
      in case synthLoop h p startDate effMu r 0 currentSpot marketProxy [] rng of
           None \<Rightarrow> None
         | Some (Inl e) \<Rightarrow> Some (Inl e)
         | Some (Inr dat) \<Rightarrow>
             Some (Inr \<lparr>parameters = p, data = dat,
                        summary = calculateSummary (map displayValue dat)\<rparr>))"

section \<open>Observations of a run\<close>

text \<open>The path of a run that returned; the empty list for a run that did not.\<close>

definition pathOf :: "(error + SynthesisResult) option \<Rightarrow> DataPoint list" where
  "pathOf out = (case out of Some (Inr res) \<Rightarrow> data res | _ \<Rightarrow> [])"

definition eraseDate :: "DataPoint \<Rightarrow> DataPoint" where
  "eraseDate pt = pt\<lparr>timestamp := 0\<rparr>"

text \<open>A result with the dates of its points erased.\<close>

definition withoutDates :: "(error + SynthesisResult) option \<Rightarrow> (error + SynthesisResult) option" where
  "withoutDates out =
     (case out of
        Some (Inr res) \<Rightarrow> Some (Inr (res\<lparr>data := map eraseDate (data res)\<rparr>))
      | other \<Rightarrow> other)"

text \<open>The outcome of the loop with the dates of its points erased.\<close>

definition eraseDates :: "(error + DataPoint list) option \<Rightarrow> (error + DataPoint list) option" where
  "eraseDates out = (case out of Some (Inr dat) \<Rightarrow> Some (Inr (map eraseDate dat)) | other \<Rightarrow> other)"

text \<open>The number of draws that the loops of \<^const>\<open>getStandardNormal\<close> do not skip.\<close>

definition nonZeroDraws :: "real list \<Rightarrow> nat" where
  "nonZeroDraws rng = length (filter (\<lambda>u. u \<noteq> 0) rng)"

text \<open>The dates of a run all lie in the range of \<^verbatim>\<open>Date\<close>.\<close>

definition datesValid :: "Host \<Rightarrow> nat \<Rightarrow> bool" where
  "datesValid h n = (\<forall>k\<in>set [0..<Suc n]. currentDate h (now h) k \<noteq> None)"

section \<open>Concrete inputs\<close>

text \<open>\<^verbatim>\<open>INITIAL_PARAMS\<close> of the application.\<close>

definition INITIAL_PARAMS :: SynthesisParameters where
  "INITIAL_PARAMS =
     \<lparr>modelType = EQUITY_GBM, assetClass = EQUITY, initialValue = 100, timeHorizon = 365,
      dt = 1 / 252, mu = Some 0.08, sigma = Some 0.20, kappa = Some 2.0, theta = Some 0.05,
      correlations = Some \<lparr>equity = Some 0.7, rates = Some (- 0.2), volatility = Some (- 0.5),
                              commodity = Some 0.1\<rparr>,
      dividendYield = Some 0.02, peRatio = None, expectedEarnings = None, foreignRate = None,
      domesticRate = None, convenienceYield = None, storageCost = None,
      seasonalAmplitude = None, creditSpread = None, cdsSpread = None, baseRate = None,
      strikePrice = None, riskFreeRate = None, expiryTime = None, isCall = None,
      impliedVol = None, lambda = None, jumpMu = None, jumpSigma = None\<rparr>"

text \<open>
  The first day of the month of a day number in the proleptic Gregorian calendar (day 0 is
  1970-01-01), by the day of the 400-year era and the day of the year that starts in March.
\<close>

definition gregorianMonthStart :: "int \<Rightarrow> int" where
  "gregorianMonthStart d =
     (let z = d + 719468;
          doe = z mod 146097;
          yoe = (doe - doe div 1460 + doe div 36524 - doe div 146096) div 365;
          doy = doe - (365 * yoe + yoe div 4 - yoe div 100);
          mp = (5 * doy + 2) div 153
      in d - (doy - (153 * mp + 2) div 5))"

text \<open>A host on UTC whose clock reads 2026-11-03T12:00:00Z (day 20760).\<close>

definition utcHost :: Host where
  "utcHost = \<lparr>now = 20760 * 86400000 + 43200000, tzaOfUTC = (\<lambda>t. 0), tzaOfLocal = (\<lambda>t. 0),
              monthStart = gregorianMonthStart\<rparr>"

text \<open>The same host one day later.\<close>

definition utcHostNextDay :: Host where
  "utcHostNextDay = utcHost\<lparr>now := 20761 * 86400000 + 43200000\<rparr>"

text \<open>
  A host in New York in 2026: five hours behind UTC, four from 2026-03-08T07:00:00Z (02:00
  local time, day 20520) to 2026-11-01T06:00:00Z (day 20758). A local time in the hour
  that 8 March skips (02:00 to 03:00) and one in the hour that 1 November repeats (01:00
  to 02:00) are read with the offset before the change. Its clock reads
  2026-03-08T00:30:00Z, which is 19:30 on 7 March local time.
\<close>

definition newYorkHost :: Host where
  "newYorkHost =
     \<lparr>now = 20520 * 86400000 + 1800000,
      tzaOfUTC = (\<lambda>t. if 20520 * 86400000 + 7 * 3600000 \<le> t \<and> t < 20758 * 86400000 + 6 * 3600000
                       then - 4 * 3600000 else - 5 * 3600000),
      tzaOfLocal = (\<lambda>t. if 20520 * 86400000 + 3 * 3600000 \<le> t \<and> t < 20758 * 86400000 + 2 * 3600000
                         then - 4 * 3600000 else - 5 * 3600000),
      monthStart = gregorianMonthStart\<rparr>"

text \<open>Draws that give the shock \<open>sqrt (2 ln 2) * cos (pi / 2) = 0\<close> each time.\<close>

definition quietDraws :: "nat \<Rightarrow> real list" where
  "quietDraws n = concat (replicate n [1 / 2, 1 / 4])"

text \<open>
  The flat scenario: \<^verbatim>\<open>initialValue=100, modelType=GBM, mu=0, sigma=0, steps=10, dt=1/252\<close>,
  every optional field but \<^verbatim>\<open>mu\<close> and \<^verbatim>\<open>sigma\<close> left out, for a given asset class.
\<close>

definition flatScenario :: "AssetClass \<Rightarrow> SynthesisParameters" where
  "flatScenario ac =
     \<lparr>modelType = EQUITY_GBM, assetClass = ac, initialValue = 100, timeHorizon = 10,
      dt = 1 / 252, mu = Some 0, sigma = Some 0, kappa = None, theta = None,
      correlations = None,
      dividendYield = None, peRatio = None, expectedEarnings = None, foreignRate = None,
      domesticRate = None, convenienceYield = None, storageCost = None,
      seasonalAmplitude = None, creditSpread = None, cdsSpread = None, baseRate = None,
      strikePrice = None, riskFreeRate = None, expiryTime = None, isCall = None,
      impliedVol = None, lambda = None, jumpMu = None, jumpSigma = None\<rparr>"

text \<open>
  A central-bank rate under the square-root model, in monthly steps, pulled from 5% to
  2% at speed 50 (the largest speed the parameter form accepts).
\<close>

definition cirScenario :: SynthesisParameters where
  "cirScenario =
     \<lparr>modelType = INTEREST_RATE_CIR, assetClass = CENTRAL_BANK_RATE, initialValue = 0.05,
      timeHorizon = 1, dt = 1 / 12, mu = None, sigma = Some 0.2, kappa = Some 50,
      theta = Some 0.02, correlations = None,
      dividendYield = None, peRatio = None, expectedEarnings = None, foreignRate = None,
      domesticRate = None, convenienceYield = None, storageCost = None,
      seasonalAmplitude = None, creditSpread = None, cdsSpread = None, baseRate = None,
      strikePrice = None, riskFreeRate = None, expiryTime = None, isCall = None,
      impliedVol = None, lambda = None, jumpMu = None, jumpSigma = None\<rparr>"

text \<open>The same rate in daily steps, at speed 2 and without diffusion.\<close>

definition cirCalm :: SynthesisParameters where
  "cirCalm = cirScenario\<lparr>dt := 1 / 252, kappa := Some 2, sigma := Some 0\<rparr>"

text \<open>An option priced with an implied volatility of exactly 0 and a volatility of 0.35.\<close>

definition zeroImpliedVol :: SynthesisParameters where
  "zeroImpliedVol = INITIAL_PARAMS\<lparr>assetClass := OPTION, timeHorizon := 1, sigma := Some 0.35,
                                   impliedVol := Some 0\<rparr>"

text \<open>The same option with the implied volatility left out.\<close>

definition absentImpliedVol :: SynthesisParameters where
  "absentImpliedVol = INITIAL_PARAMS\<lparr>assetClass := OPTION, timeHorizon := 1, sigma := Some 0.35\<rparr>"

text \<open>
  An at-the-money call on the flat scenario that expires after 0.01 years, so that from
  step 4 on the time to expiry is at its floor.
\<close>

definition expiredOption :: SynthesisParameters where
  "expiredOption = (flatScenario OPTION)\<lparr>expiryTime := Some 0.01\<rparr>"

text \<open>
  A central-bank rate of 0.04% under the square-root model in daily steps, with the
  default speed 2, target 5% and volatility 0.2.
\<close>

definition cirDefaults :: SynthesisParameters where
  "cirDefaults = cirScenario\<lparr>initialValue := 0.0004, dt := 1 / 252, sigma := None, kappa := None,
                               theta := None\<rparr>"

text \<open>
  Draws whose first market shock is 0 and whose first idiosyncratic shock is
  \<open>sqrt (- 2 * ln (1 / 65536)) * cos pi\<close>, about -4.7.
\<close>

definition shockDraws :: "real list" where
  "shockDraws = [1 / 2, 1 / 4, 1 / 65536, 1 / 2] @ quietDraws 5"

section \<open>Facts about the loop\<close>

declare synthLoop.simps [simp del]

lemmas defaults =
  dflt_def mu'_def sigma'_def kappa'_def theta'_def lambda'_def jumpMu'_def jumpSigma'_def
  dividendYield'_def peRatio'_def expectedEarnings'_def foreignRate'_def domesticRate'_def
  convenienceYield'_def storageCost'_def seasonalAmplitude'_def creditSpread'_def cdsSpread'_def
  strikePrice'_def riskFreeRate'_def expiryTime'_def isCall'_def impliedVol'_def correlations'_def

subsection \<open>Enough draws\<close>

lemma drawNonZero_enough:
  "1 \<le> nonZeroDraws rng \<Longrightarrow>
   \<exists>u rng'. drawNonZero rng = Some (u, rng') \<and> u \<noteq> 0 \<and> nonZeroDraws rng' + 1 = nonZeroDraws rng"
  by (induction rng) (auto simp: nonZeroDraws_def)

lemma getStandardNormal_enough:
  assumes "2 \<le> nonZeroDraws rng"
  shows "\<exists>z rng'. getStandardNormal rng = Some (z, rng') \<and> nonZeroDraws rng' + 2 = nonZeroDraws rng"
proof -
  from assms obtain u rng1 where 1: "drawNonZero rng = Some (u, rng1)"
    and n1: "nonZeroDraws rng1 + 1 = nonZeroDraws rng"
    using drawNonZero_enough [of rng] by auto
  from assms n1 obtain v rng2 where 2: "drawNonZero rng1 = Some (v, rng2)"
    and n2: "nonZeroDraws rng2 + 1 = nonZeroDraws rng1"
    using drawNonZero_enough [of rng1] by auto
  show ?thesis using 1 2 n1 n2 by (simp add: getStandardNormal_def)
qed

lemma mathRandom_enough:
  "1 \<le> nonZeroDraws rng \<Longrightarrow>
   \<exists>u rng'. mathRandom rng = Some (u, rng') \<and> nonZeroDraws rng \<le> nonZeroDraws rng' + 1"
  by (cases rng) (auto simp: nonZeroDraws_def)

lemma evolve_enough:
  assumes "3 \<le> nonZeroDraws rng"
  shows "\<exists>s' rng'. evolve p em eps s rng = Some (s', rng') \<and> nonZeroDraws rng \<le> nonZeroDraws rng' + 3"
proof (cases "modelType p")
  case EQUITY_MERTON_JUMP
  from assms obtain u rng1 where 1: "mathRandom rng = Some (u, rng1)"
    and n1: "nonZeroDraws rng \<le> nonZeroDraws rng1 + 1"
    using mathRandom_enough [of rng] by auto
  from assms n1 obtain z rng2 where 2: "getStandardNormal rng1 = Some (z, rng2)"
    and n2: "nonZeroDraws rng2 + 2 = nonZeroDraws rng1"
    using getStandardNormal_enough [of rng1] by auto
  show ?thesis using EQUITY_MERTON_JUMP 1 2 n1 n2 by (simp add: evolve_def Let_def)
qed (simp_all add: evolve_def Let_def)

lemma advance_enough:
  assumes "7 \<le> nonZeroDraws rng"
  shows "\<exists>s' m' rng'. advance p em r s m rng = Some (s', m', rng')
           \<and> nonZeroDraws rng \<le> nonZeroDraws rng' + 7"
proof -
  from assms obtain z1 rng1 where 1: "getStandardNormal rng = Some (z1, rng1)"
    and n1: "nonZeroDraws rng1 + 2 = nonZeroDraws rng"
    using getStandardNormal_enough [of rng] by auto
  from assms n1 obtain z2 rng2 where 2: "getStandardNormal rng1 = Some (z2, rng2)"
    and n2: "nonZeroDraws rng2 + 2 = nonZeroDraws rng1"
    using getStandardNormal_enough [of rng1] by auto
  from assms n1 n2 have "3 \<le> nonZeroDraws rng2" by simp
  then obtain s' rng3 where 3: "evolve p em (assetEpsilon r z1 z2) s rng2 = Some (s', rng3)"
    and n3: "nonZeroDraws rng2 \<le> nonZeroDraws rng3 + 3"
    using evolve_enough [of rng2 p em "assetEpsilon r z1 z2" s] by auto
  show ?thesis using 1 2 3 n1 n2 n3 by (simp add: advance_def Let_def)
qed

subsection \<open>The points of the path\<close>

lemma makePoint_Inr:
  "makePoint h p sd i s m = Inr pt \<Longrightarrow>
     toISODate (currentDate h sd i) = Inr (timestamp pt) \<and> index pt = i \<and> underlyingValue pt = s
     \<and> benchmarkValue pt = m \<and> displayValue pt = shownValue (domainLogic p i s)
     \<and> pointGreeks pt = shownGreeks (domainLogic p i s)
     \<and> secondaryValue pt = shownSecondary (domainLogic p i s)
     \<and> pointPe pt = shownPe (domainLogic p i s)
     \<and> pointEarnings pt = shownEarnings (domainLogic p i s)"
  by (auto simp: makePoint_def Let_def split: sum.splits)

lemma makePoint_valid:
  "currentDate h sd i \<noteq> None \<Longrightarrow> \<exists>pt. makePoint h p sd i s m = Inr pt"
  by (auto simp: makePoint_def Let_def toISODate_def split: sum.splits option.splits)

text \<open>The loop appends one point per remaining index and keeps the points before.\<close>

lemma synthLoop_appends:
  assumes "synthLoop h p sd em r i s m dat rng = Some (Inr out)" and "timeHorizon p = real n"
  shows "\<exists>new. out = dat @ new \<and> length new = Suc n - i \<and>
           (\<forall>k<length new. \<exists>s' m'. makePoint h p sd (i + k) s' m' = Inr (new ! k))"
  using assms
proof (induction h p sd em r i s m dat rng rule: synthLoop.induct)
  case (1 h p sd em r i s m dat rng)
  show ?case
  proof (cases "real i \<le> timeHorizon p")
    case False
    with "1.prems" show ?thesis by (simp add: synthLoop.simps [of h p sd em r i])
  next
    case True
    with "1.prems" obtain pt s' m' rng' where pt: "makePoint h p sd i s m = Inr pt"
      and adv: "advance p em r s m rng = Some (s', m', rng')"
      and rec: "synthLoop h p sd em r (Suc i) s' m' (dat @ [pt]) rng' = Some (Inr out)"
      by (auto simp: synthLoop.simps [of h p sd em r i] split: sum.splits option.splits)
    from "1.IH" [OF True pt adv refl refl rec "1.prems"(2)]
    obtain new where new: "out = (dat @ [pt]) @ new" "length new = Suc n - Suc i"
      "\<forall>k<length new. \<exists>s' m'. makePoint h p sd (Suc i + k) s' m' = Inr (new ! k)"
      by blast
    from True "1.prems"(2) have le: "i \<le> n" by simp
    have "\<forall>k<length (pt # new). \<exists>s' m'. makePoint h p sd (i + k) s' m' = Inr ((pt # new) ! k)"
    proof (intro allI impI)
      fix k assume "k < length (pt # new)"
      show "\<exists>s' m'. makePoint h p sd (i + k) s' m' = Inr ((pt # new) ! k)"
      proof (cases k)
        case 0
        then show ?thesis using pt by auto
      next
        case (Suc j)
        with \<open>k < length (pt # new)\<close> new(3) show ?thesis by auto
      qed
    qed
    moreover have "out = dat @ (pt # new)" using new(1) by simp
    moreover have "length (pt # new) = Suc n - i" using new(2) le by simp
    ultimately show ?thesis by blast
  qed
qed

text \<open>With enough draws and dates in range the loop returns a path.\<close>

lemma synthLoop_total:
  assumes "timeHorizon p = real n" and "7 * (Suc n - i) \<le> nonZeroDraws rng"
    and "\<forall>k\<le>n. currentDate h sd k \<noteq> None"
  shows "\<exists>out. synthLoop h p sd em r i s m dat rng = Some (Inr out)"
  using assms
proof (induction "Suc n - i" arbitrary: i s m dat rng)
  case 0
  then have "\<not> real i \<le> timeHorizon p" by simp
  then show ?case by (simp add: synthLoop.simps [of h p sd em r i])
next
  case (Suc d)
  then have le: "i \<le> n" by simp
  then have True: "real i \<le> timeHorizon p" using Suc.prems(1) by simp
  from le Suc.prems(3) obtain pt where pt: "makePoint h p sd i s m = Inr pt"
    using makePoint_valid [of h sd i p s m] by auto
  from Suc.prems(2) Suc.hyps(2) have "7 \<le> nonZeroDraws rng" by simp
  then obtain s' m' rng' where adv: "advance p em r s m rng = Some (s', m', rng')"
    and n: "nonZeroDraws rng \<le> nonZeroDraws rng' + 7"
    using advance_enough [of rng p em r s m] by auto
  have "d = Suc n - Suc i" using Suc.hyps(2) by simp
  moreover have "7 * (Suc n - Suc i) \<le> nonZeroDraws rng'"
    using Suc.prems(2) Suc.hyps(2) n by simp
  ultimately obtain out where
    "synthLoop h p sd em r (Suc i) s' m' (dat @ [pt]) rng' = Some (Inr out)"
    using Suc.hyps(1) [of "Suc i" rng' s' m' "dat @ [pt]"] Suc.prems(1,3) by blast
  then show ?case using True pt adv by (simp add: synthLoop.simps [of h p sd em r i])
qed

subsection \<open>The path of a run\<close>

lemma synthLoop_points:
  assumes "synthLoop h p sd em r i s m dat rng = Some (Inr out)"
  shows "\<exists>new. out = dat @ new \<and>
           (\<forall>k<length new. \<exists>s' m'. makePoint h p sd (i + k) s' m' = Inr (new ! k)) \<and>
           (real i \<le> timeHorizon p \<longrightarrow> new \<noteq> [] \<and> makePoint h p sd i s m = Inr (new ! 0))"
  using assms
proof (induction h p sd em r i s m dat rng rule: synthLoop.induct)
  case (1 h p sd em r i s m dat rng)
  show ?case
  proof (cases "real i \<le> timeHorizon p")
    case False
    with "1.prems" show ?thesis by (simp add: synthLoop.simps [of h p sd em r i])
  next
    case True
    with "1.prems" obtain pt s' m' rng' where pt: "makePoint h p sd i s m = Inr pt"
      and adv: "advance p em r s m rng = Some (s', m', rng')"
      and rec: "synthLoop h p sd em r (Suc i) s' m' (dat @ [pt]) rng' = Some (Inr out)"
      by (auto simp: synthLoop.simps [of h p sd em r i] split: sum.splits option.splits)
    from "1.IH" [OF True pt adv refl refl rec]
    obtain new where new: "out = (dat @ [pt]) @ new"
      "\<forall>k<length new. \<exists>s' m'. makePoint h p sd (Suc i + k) s' m' = Inr (new ! k)"
      by blast
    have "\<forall>k<length (pt # new). \<exists>s' m'. makePoint h p sd (i + k) s' m' = Inr ((pt # new) ! k)"
    proof (intro allI impI)
      fix k assume "k < length (pt # new)"
      show "\<exists>s' m'. makePoint h p sd (i + k) s' m' = Inr ((pt # new) ! k)"
      proof (cases k)
        case 0
        then show ?thesis using pt by auto
      next
        case (Suc j)
        with \<open>k < length (pt # new)\<close> new(2) show ?thesis by auto
      qed
    qed
    moreover have "out = dat @ (pt # new)" using new(1) by simp
    moreover have "makePoint h p sd i s m = Inr ((pt # new) ! 0)" using pt by simp
    ultimately show ?thesis by blast
  qed
qed

lemma synthLoop_invariant:
  assumes "\<forall>s m rng s' m' rng'. P s \<longrightarrow> advance p em r s m rng = Some (s', m', rng') \<longrightarrow> P s'"
    and "P s" and "synthLoop h p sd em r i s m dat rng = Some (Inr out)"
  shows "\<exists>new. out = dat @ new \<and> (\<forall>pt\<in>set new. P (underlyingValue pt))"
  using assms
proof (induction h p sd em r i s m dat rng rule: synthLoop.induct)
  case (1 h p sd em r i s m dat rng)
  note step = "1.prems"(1)
  show ?case
  proof (cases "real i \<le> timeHorizon p")
    case False
    with "1.prems"(3) show ?thesis by (simp add: synthLoop.simps [of h p sd em r i])
  next
    case True
    with "1.prems"(3) obtain pt s' m' rng' where pt: "makePoint h p sd i s m = Inr pt"
      and adv: "advance p em r s m rng = Some (s', m', rng')"
      and rec: "synthLoop h p sd em r (Suc i) s' m' (dat @ [pt]) rng' = Some (Inr out)"
      by (auto simp: synthLoop.simps [of h p sd em r i] split: sum.splits option.splits)
    have "P s'" using step "1.prems"(2) adv by blast
    from "1.IH" [OF True pt adv refl refl step this rec]
    obtain new where new: "out = (dat @ [pt]) @ new" "\<forall>pt\<in>set new. P (underlyingValue pt)"
      by blast
    have "underlyingValue pt = s" using makePoint_Inr [OF pt] by simp
    then have "\<forall>q\<in>set (pt # new). P (underlyingValue q)"
      using new(2) "1.prems"(2) by simp
    moreover have "out = dat @ (pt # new)" using new(1) by simp
    ultimately show ?thesis by blast
  qed
qed

lemma pathOf_loop:
  "pathOf (generateSynthesizedData h p rng) =
     (case synthLoop h p (now h) (effectiveMu p) (rho p) 0 (initialValue p) (initialValue p) [] rng of
        Some (Inr dat) \<Rightarrow> dat | _ \<Rightarrow> [])"
  by (simp add: pathOf_def generateSynthesizedData_def Let_def split: option.splits sum.splits)

lemma path_cases:
  obtains (none) "pathOf (generateSynthesizedData h p rng) = []"
  | (some) "synthLoop h p (now h) (effectiveMu p) (rho p) 0 (initialValue p) (initialValue p) [] rng
              = Some (Inr (pathOf (generateSynthesizedData h p rng)))"
proof (cases "synthLoop h p (now h) (effectiveMu p) (rho p) 0 (initialValue p) (initialValue p) [] rng")
  case None
  then have "pathOf (generateSynthesizedData h p rng) = []" by (simp add: pathOf_loop)
  then show ?thesis by (rule none)
next
  case (Some res)
  show ?thesis
  proof (cases res)
    case (Inl e)
    with Some have "pathOf (generateSynthesizedData h p rng) = []" by (simp add: pathOf_loop)
    then show ?thesis by (rule none)
  next
    case (Inr dat)
    with Some have "pathOf (generateSynthesizedData h p rng) = dat" by (simp add: pathOf_loop)
    with Some Inr show ?thesis by (intro some) simp
  qed
qed

lemma path_point:
  assumes "k < length (pathOf (generateSynthesizedData h p rng))"
  shows "\<exists>s m. makePoint h p (now h) k s m = Inr (pathOf (generateSynthesizedData h p rng) ! k)"
proof (cases rule: path_cases [of h p rng])
  case none
  with assms show ?thesis by simp
next
  case some
  from synthLoop_points [OF some] assms show ?thesis by auto
qed

lemma path_first:
  assumes "0 < length (pathOf (generateSynthesizedData h p rng))"
  shows "makePoint h p (now h) 0 (initialValue p) (initialValue p)
           = Inr (pathOf (generateSynthesizedData h p rng) ! 0)"
proof (cases rule: path_cases [of h p rng])
  case none
  with assms show ?thesis by simp
next
  case some
  have "real 0 \<le> timeHorizon p"
  proof (rule ccontr)
    assume "\<not> real 0 \<le> timeHorizon p"
    then have "synthLoop h p (now h) (effectiveMu p) (rho p) 0 (initialValue p) (initialValue p) [] rng
                 = Some (Inr [])"
      by (simp add: synthLoop.simps [of h p "now h" "effectiveMu p" "rho p" 0])
    with some assms show False by simp
  qed
  with synthLoop_points [OF some] show ?thesis by auto
qed

lemma path_invariant:
  assumes "\<And>s m rng s' m' rng'.
             P s \<Longrightarrow> advance p (effectiveMu p) (rho p) s m rng = Some (s', m', rng') \<Longrightarrow> P s'"
    and "P (initialValue p)" and "k < length (pathOf (generateSynthesizedData h p rng))"
  shows "P (underlyingValue (pathOf (generateSynthesizedData h p rng) ! k))"
proof (cases rule: path_cases [of h p rng])
  case none
  with assms(3) show ?thesis by simp
next
  case some
  have "\<forall>s m rng s' m' rng'.
          P s \<longrightarrow> advance p (effectiveMu p) (rho p) s m rng = Some (s', m', rng') \<longrightarrow> P s'"
    using assms(1) by blast
  from synthLoop_invariant [OF this assms(2) some] assms(3)
  show ?thesis by auto
qed

lemma path_length:
  assumes "timeHorizon p = real n" and "7 * Suc n \<le> nonZeroDraws rng" and "datesValid h n"
    and "n \<le> 5000"
  shows "length (pathOf (generateSynthesizedData h p rng)) = Suc n"
proof -
  from assms(3) have "\<forall>k\<le>n. currentDate h (now h) k \<noteq> None"
    by (auto simp: datesValid_def)
  from synthLoop_total [OF assms(1) _ this, of 0 rng "effectiveMu p" "rho p" "initialValue p"
      "initialValue p" "[]"] assms(2)
  obtain out where out: "synthLoop h p (now h) (effectiveMu p) (rho p) 0 (initialValue p)
      (initialValue p) [] rng = Some (Inr out)"
    by auto
  then have "pathOf (generateSynthesizedData h p rng) = out" by (simp add: pathOf_loop)
  with synthLoop_appends [OF out assms(1)] show ?thesis by auto
qed

lemma quietDraws_Suc: "quietDraws (Suc n) = 1 / 2 # 1 / 4 # quietDraws n"
  by (simp add: quietDraws_def)

lemma getStandardNormal_quiet:
  "0 < n \<Longrightarrow> getStandardNormal (quietDraws n) = Some (0, quietDraws (n - 1))"
  by (cases n) (simp_all add: getStandardNormal_def quietDraws_Suc)

lemma path_second:
  assumes "1 < length (pathOf (generateSynthesizedData h p rng))"
  shows "\<exists>s' m' rng'. advance p (effectiveMu p) (rho p) (initialValue p) (initialValue p) rng
                          = Some (s', m', rng')
           \<and> underlyingValue (pathOf (generateSynthesizedData h p rng) ! 1) = s'"
proof (cases rule: path_cases [of h p rng])
  case none
  with assms show ?thesis by simp
next
  case some
  let ?path = "pathOf (generateSynthesizedData h p rng)"
  have True: "real 0 \<le> timeHorizon p"
  proof (rule ccontr)
    assume "\<not> real 0 \<le> timeHorizon p"
    then have "synthLoop h p (now h) (effectiveMu p) (rho p) 0 (initialValue p) (initialValue p) [] rng
                 = Some (Inr [])"
      by (simp add: synthLoop.simps [of h p "now h" "effectiveMu p" "rho p" 0])
    with some assms show False by simp
  qed
  with some obtain pt s' m' rng' where
    pt: "makePoint h p (now h) 0 (initialValue p) (initialValue p) = Inr pt"
    and adv: "advance p (effectiveMu p) (rho p) (initialValue p) (initialValue p) rng
                = Some (s', m', rng')"
    and rec: "synthLoop h p (now h) (effectiveMu p) (rho p) (Suc 0) s' m' ([] @ [pt]) rng'
                = Some (Inr ?path)"
    by (auto simp: synthLoop.simps [of h p "now h" "effectiveMu p" "rho p" 0]
        split: sum.splits option.splits)
  from synthLoop_points [OF rec] obtain new where new: "?path = ([] @ [pt]) @ new"
    and first: "real (Suc 0) \<le> timeHorizon p \<longrightarrow>
                  new \<noteq> [] \<and> makePoint h p (now h) (Suc 0) s' m' = Inr (new ! 0)"
    by blast
  from new assms have ne: "new \<noteq> []" by auto
  have "real (Suc 0) \<le> timeHorizon p"
  proof (rule ccontr)
    assume "\<not> real (Suc 0) \<le> timeHorizon p"
    then have "synthLoop h p (now h) (effectiveMu p) (rho p) (Suc 0) s' m' ([] @ [pt]) rng'
                 = Some (Inr ([] @ [pt]))"
      by (simp add: synthLoop.simps [of h p "now h" "effectiveMu p" "rho p" "Suc 0"])
    with rec new ne show False by simp
  qed
  with first have "makePoint h p (now h) (Suc 0) s' m' = Inr (new ! 0)" by simp
  from makePoint_Inr [OF this] have "underlyingValue (new ! 0) = s'" by simp
  moreover have "?path ! 1 = new ! 0" using new by simp
  ultimately show ?thesis using adv by simp
qed

subsection \<open>Steps of the models\<close>

lemma advance_gbm_flat:
  assumes "modelType p = EQUITY_GBM" and "sigma' p = 0"
    and "advance p 0 r s m rng = Some (s', m', rng')"
  shows "s' = s"
  using assms by (auto simp: advance_def evolve_def Let_def split: option.splits)

lemma evolve_cir:
  "modelType p = INTEREST_RATE_CIR \<Longrightarrow>
   evolve p em eps s rng =
     Some (max s 0.0001 + kappa' p * (theta' p - max s 0.0001) * dt p
             + sigma' p * sqrt (max s 0.0001) * sqrt (dt p) * eps, rng)"
  by (simp add: evolve_def Let_def)

lemma advance_cir_value:
  assumes "modelType p = INTEREST_RATE_CIR"
    and "getStandardNormal rng = Some (z1, rng1)" and "getStandardNormal rng1 = Some (z2, rng2)"
    and "advance p em r s m rng = Some (s', m', rng')"
  shows "s' = max s 0.0001 + kappa' p * (theta' p - max s 0.0001) * dt p
               + sigma' p * sqrt (max s 0.0001) * sqrt (dt p) * assetEpsilon r z1 z2"
  using assms(4) by (simp add: advance_def assms(2,3) evolve_cir [OF assms(1)] Let_def)

subsection \<open>Dates\<close>

lemma currentDate_eq:
  "currentDate h sd i = TimeClip (UTC h (LocalTime h sd + int i * msPerDay))"
proof -
  have "(Day t + int i) * msPerDay + TimeWithinDay t = t + int i * msPerDay" for t
    by (simp add: Day_def TimeWithinDay_def algebra_simps)
  then show ?thesis
    by (simp add: currentDate_def setDate_def getDate_def Let_def)
qed

lemma fixed_offset_date:
  assumes "tzaOfUTC h = (\<lambda>t. c)" and "tzaOfLocal h = (\<lambda>t. c)"
  shows "currentDate h sd i = TimeClip (sd + int i * msPerDay)"
  using assms by (simp add: currentDate_eq UTC_def LocalTime_def)

lemma utcHost_date:
  assumes "k \<le> 5000"
  shows "currentDate utcHost (now utcHost) k = Some (now utcHost + int k * msPerDay)"
proof -
  have "tzaOfUTC utcHost = (\<lambda>t. 0)" and "tzaOfLocal utcHost = (\<lambda>t. 0)"
    by (simp_all add: utcHost_def)
  from fixed_offset_date [OF this]
  have "currentDate utcHost (now utcHost) k = TimeClip (now utcHost + int k * msPerDay)" .
  moreover have "now utcHost = 1793707200000" by (simp add: utcHost_def)
  ultimately show ?thesis using assms by (simp add: TimeClip_def msPerDay_def)
qed

lemma utcHostNextDay_date:
  assumes "k \<le> 5000"
  shows "currentDate utcHostNextDay (now utcHostNextDay) k
           = Some (now utcHostNextDay + int k * msPerDay)"
proof -
  have "tzaOfUTC utcHostNextDay = (\<lambda>t. 0)" and "tzaOfLocal utcHostNextDay = (\<lambda>t. 0)"
    by (simp_all add: utcHostNextDay_def utcHost_def)
  from fixed_offset_date [OF this]
  have "currentDate utcHostNextDay (now utcHostNextDay) k
          = TimeClip (now utcHostNextDay + int k * msPerDay)" .
  moreover have "now utcHostNextDay = 1793793600000" by (simp add: utcHostNextDay_def)
  ultimately show ?thesis using assms by (simp add: TimeClip_def msPerDay_def)
qed

lemma datesValid_utcHost: "n \<le> 5000 \<Longrightarrow> datesValid utcHost n"
  by (auto simp: datesValid_def utcHost_date)

lemma datesValid_utcHostNextDay: "n \<le> 5000 \<Longrightarrow> datesValid utcHostNextDay n"
  by (auto simp: datesValid_def utcHostNextDay_date)

lemma nonZeroDraws_quietDraws: "nonZeroDraws (quietDraws n) = 2 * n"
  by (induction n) (simp_all add: nonZeroDraws_def quietDraws_def)

lemma newYork_dates:
  "toISODate (currentDate newYorkHost (now newYorkHost) 0) = Inr 20520"
  "toISODate (currentDate newYorkHost (now newYorkHost) 1) = Inr 20520"
  by (simp_all add: currentDate_eq toISODate_def TimeClip_def UTC_def LocalTime_def Day_def
      msPerDay_def newYorkHost_def)

lemma datesValid_newYorkHost: "datesValid newYorkHost 1"
  by (simp add: datesValid_def currentDate_eq TimeClip_def UTC_def LocalTime_def
      msPerDay_def newYorkHost_def)

lemma path_shape:
  assumes "timeHorizon p = real n" and "7 * Suc n \<le> nonZeroDraws rng" and "datesValid h n"
    and "i \<le> n" and "n \<le> 5000"
  shows "length (pathOf (generateSynthesizedData h p rng)) = Suc n"
    and "index (pathOf (generateSynthesizedData h p rng) ! i) = i"
    and "toISODate (currentDate h (now h) i)
           = Inr (timestamp (pathOf (generateSynthesizedData h p rng) ! i))"
proof -
  show len: "length (pathOf (generateSynthesizedData h p rng)) = Suc n"
    by (rule path_length [OF assms(1-3) assms(5)])
  with assms(4) have "i < length (pathOf (generateSynthesizedData h p rng))" by simp
  from path_point [OF this] obtain s m where
    "makePoint h p (now h) i s m = Inr (pathOf (generateSynthesizedData h p rng) ! i)" by blast
  from makePoint_Inr [OF this]
  show "index (pathOf (generateSynthesizedData h p rng) ! i) = i"
    and "toISODate (currentDate h (now h) i)
           = Inr (timestamp (pathOf (generateSynthesizedData h p rng) ! i))"
    by simp_all
qed

text \<open>
  On a host whose offset from UTC never changes, the point at index \<open>i\<close> carries the UTC
  day of the clock plus \<open>i\<close>.
\<close>

lemma path_dates_fixed_offset:
  assumes "tzaOfUTC h = (\<lambda>t. c)" and "tzaOfLocal h = (\<lambda>t. c)"
    and "i < length (pathOf (generateSynthesizedData h p rng))"
  shows "timestamp (pathOf (generateSynthesizedData h p rng) ! i) = Day (now h) + int i"
proof -
  from path_point [OF assms(3)] obtain s m where
    "makePoint h p (now h) i s m = Inr (pathOf (generateSynthesizedData h p rng) ! i)" by blast
  from makePoint_Inr [OF this]
  have "toISODate (TimeClip (now h + int i * msPerDay))
          = Inr (timestamp (pathOf (generateSynthesizedData h p rng) ! i))"
    by (simp add: fixed_offset_date [OF assms(1,2)])
  then have "timestamp (pathOf (generateSynthesizedData h p rng) ! i)
               = Day (now h + int i * msPerDay)"
    by (auto simp: toISODate_def TimeClip_def split: if_splits)
  then show ?thesis by (simp add: Day_def msPerDay_def)
qed

subsection \<open>Hosts and spare draws\<close>

text \<open>Two hosts on which no date is out of range give the same run, dates apart.\<close>

lemma eraseDate_makePoint:
  assumes "makePoint h1 p sd1 i s m = Inr pt1" and "makePoint h2 p sd2 i s m = Inr pt2"
  shows "eraseDate pt1 = eraseDate pt2"
  using assms by (auto simp: makePoint_def eraseDate_def Let_def split: sum.splits)

lemma synthLoop_host_independent:
  assumes "\<forall>k. real k \<le> timeHorizon p \<longrightarrow> currentDate h1 sd1 k \<noteq> None \<and> currentDate h2 sd2 k \<noteq> None"
    and "map eraseDate dat1 = map eraseDate dat2"
  shows "eraseDates (synthLoop h1 p sd1 em r i s m dat1 rng)
           = eraseDates (synthLoop h2 p sd2 em r i s m dat2 rng)"
  using assms
proof (induction h1 p sd1 em r i s m dat1 rng arbitrary: dat2 rule: synthLoop.induct)
  case (1 h1 p sd1 em r i s m dat1 rng)
  show ?case
  proof (cases "real i \<le> timeHorizon p")
    case False
    then show ?thesis
      using "1.prems"(2)
      by (simp add: synthLoop.simps [of h1 p sd1 em r i] synthLoop.simps [of h2 p sd2 em r i]
          eraseDates_def)
  next
    case True
    with "1.prems"(1) obtain pt1 pt2 where pt1: "makePoint h1 p sd1 i s m = Inr pt1"
      and pt2: "makePoint h2 p sd2 i s m = Inr pt2"
      using makePoint_valid [of h1 sd1 i p s m] makePoint_valid [of h2 sd2 i p s m] by blast
    have e: "map eraseDate (dat1 @ [pt1]) = map eraseDate (dat2 @ [pt2])"
      using "1.prems"(2) eraseDate_makePoint [OF pt1 pt2] by simp
    show ?thesis
    proof (cases "advance p em r s m rng")
      case None
      then show ?thesis
        using True pt1 pt2
        by (simp add: synthLoop.simps [of h1 p sd1 em r i] synthLoop.simps [of h2 p sd2 em r i])
    next
      case (Some t)
      obtain s' m' rng' where t: "t = (s', m', rng')" by (cases t)
      from "1.IH" [OF True pt1 Some [unfolded t] refl refl "1.prems"(1) e]
      show ?thesis
        using True pt1 pt2 Some t
        by (simp add: synthLoop.simps [of h1 p sd1 em r i] synthLoop.simps [of h2 p sd2 em r i])
    qed
  qed
qed

lemma displayValue_eraseDate: "map displayValue (map eraseDate dat) = map displayValue dat"
  by (simp add: eraseDate_def)

lemma result_depends_on_host_only_in_dates:
  assumes "\<forall>k. real k \<le> timeHorizon p \<longrightarrow>
             currentDate h1 (now h1) k \<noteq> None \<and> currentDate h2 (now h2) k \<noteq> None"
  shows "withoutDates (generateSynthesizedData h1 p rng)
           = withoutDates (generateSynthesizedData h2 p rng)"
proof -
  let ?l1 = "synthLoop h1 p (now h1) (effectiveMu p) (rho p) 0 (initialValue p) (initialValue p) [] rng"
  let ?l2 = "synthLoop h2 p (now h2) (effectiveMu p) (rho p) 0 (initialValue p) (initialValue p) [] rng"
  have eq: "eraseDates ?l1 = eraseDates ?l2"
    by (rule synthLoop_host_independent [OF assms]) simp
  show ?thesis
  proof (cases ?l1)
    case None
    with eq have "?l2 = None" by (auto simp: eraseDates_def split: option.splits sum.splits)
    with None show ?thesis by (simp add: generateSynthesizedData_def Let_def)
  next
    case (Some res1)
    show ?thesis
    proof (cases res1)
      case (Inl e)
      with Some eq have "?l2 = Some (Inl e)"
        by (auto simp: eraseDates_def split: option.splits sum.splits)
      with Some Inl show ?thesis by (simp add: generateSynthesizedData_def Let_def)
    next
      case (Inr pts1)
      with Some eq obtain pts2 where pts2: "?l2 = Some (Inr pts2)" and m: "map eraseDate pts1 = map eraseDate pts2"
        by (auto simp: eraseDates_def split: option.splits sum.splits)
      have "map displayValue pts1 = map displayValue pts2"
        using m displayValue_eraseDate [of pts1] displayValue_eraseDate [of pts2] by simp
      with Some Inr pts2 m show ?thesis
        by (simp add: generateSynthesizedData_def Let_def withoutDates_def)
    qed
  qed
qed

text \<open>Draws after those a run has read do not change it.\<close>

lemma drawNonZero_append:
  "drawNonZero rng = Some (u, rng') \<Longrightarrow> drawNonZero (rng @ extra) = Some (u, rng' @ extra)"
  by (induction rng) (auto split: if_splits)

lemma getStandardNormal_append:
  assumes "getStandardNormal rng = Some (z, rng')"
  shows "getStandardNormal (rng @ extra) = Some (z, rng' @ extra)"
proof -
  from assms obtain u rng1 v where 1: "drawNonZero rng = Some (u, rng1)"
    and 2: "drawNonZero rng1 = Some (v, rng')" and z: "z = sqrt (- 2 * ln u) * cos (2 * pi * v)"
    by (auto simp: getStandardNormal_def split: option.splits)
  show ?thesis
    using drawNonZero_append [OF 1, of extra] drawNonZero_append [OF 2, of extra] z
    by (simp add: getStandardNormal_def)
qed

lemma mathRandom_append:
  "mathRandom rng = Some (u, rng') \<Longrightarrow> mathRandom (rng @ extra) = Some (u, rng' @ extra)"
  by (cases rng) auto

lemma evolve_append:
  assumes "evolve p em eps s rng = Some (s', rng')"
  shows "evolve p em eps s (rng @ extra) = Some (s', rng' @ extra)"
proof (cases "modelType p")
  case EQUITY_MERTON_JUMP
  with assms obtain u rng1 where 1: "mathRandom rng = Some (u, rng1)"
    by (auto simp: evolve_def split: option.splits)
  note r1 = mathRandom_append [OF 1, of extra]
  show ?thesis
  proof (cases "u < lambda' p * dt p")
    case True
    with assms EQUITY_MERTON_JUMP 1 obtain z where 2: "getStandardNormal rng1 = Some (z, rng')"
      and s': "s' = s * exp ((em - 0.5 * (sigma' p) ^ 2) * dt p + sigma' p * sqrt (dt p) * eps)
                      * exp (jumpMu' p + jumpSigma' p * z)"
      by (auto simp: evolve_def Let_def split: option.splits)
    show ?thesis
      using EQUITY_MERTON_JUMP r1 True getStandardNormal_append [OF 2, of extra] s'
      by (simp add: evolve_def Let_def)
  next
    case False
    with assms EQUITY_MERTON_JUMP 1 r1 show ?thesis
      by (auto simp: evolve_def Let_def split: option.splits)
  qed
qed (use assms in \<open>auto simp: evolve_def Let_def\<close>)

lemma advance_append:
  assumes "advance p em r s m rng = Some (s', m', rng')"
  shows "advance p em r s m (rng @ extra) = Some (s', m', rng' @ extra)"
proof -
  from assms obtain z1 rng1 z2 rng2 where 1: "getStandardNormal rng = Some (z1, rng1)"
    and 2: "getStandardNormal rng1 = Some (z2, rng2)"
    and 3: "evolve p em (assetEpsilon r z1 z2) s rng2 = Some (s', rng')"
    and m': "m' = m * exp ((marketMu - 0.5 * marketSigma ^ 2) * dt p + marketSigma * sqrt (dt p) * z1)"
    by (auto simp: advance_def Let_def split: option.splits)
  show ?thesis
    using getStandardNormal_append [OF 1, of extra] getStandardNormal_append [OF 2, of extra]
      evolve_append [OF 3, of extra] m'
    by (simp add: advance_def Let_def)
qed

lemma synthLoop_append:
  assumes "synthLoop h p sd em r i s m dat rng = Some out"
  shows "synthLoop h p sd em r i s m dat (rng @ extra) = Some out"
  using assms
proof (induction h p sd em r i s m dat rng rule: synthLoop.induct)
  case (1 h p sd em r i s m dat rng)
  show ?case
  proof (cases "real i \<le> timeHorizon p")
    case False
    with "1.prems" show ?thesis
      by (simp add: synthLoop.simps [of h p sd em r i])
  next
    case True
    show ?thesis
    proof (cases "makePoint h p sd i s m")
      case (Inl e)
      with True "1.prems" show ?thesis
        by (simp add: synthLoop.simps [of h p sd em r i])
    next
      case (Inr pt)
      with True "1.prems" obtain s' m' rng' where adv: "advance p em r s m rng = Some (s', m', rng')"
        and rec: "synthLoop h p sd em r (Suc i) s' m' (dat @ [pt]) rng' = Some out"
        by (auto simp: synthLoop.simps [of h p sd em r i] split: option.splits)
      from "1.IH" [OF True Inr adv refl refl rec] advance_append [OF adv, of extra] True Inr
      show ?thesis
        by (simp add: synthLoop.simps [of h p sd em r i _ _ _ "rng @ extra"])
    qed
  qed
qed

lemma generateSynthesizedData_append:
  assumes "generateSynthesizedData h p rng \<noteq> None"
  shows "generateSynthesizedData h p (rng @ extra) = generateSynthesizedData h p rng"
proof -
  from assms obtain out where
    "synthLoop h p (now h) (effectiveMu p) (rho p) 0 (initialValue p) (initialValue p) [] rng = Some out"
    by (auto simp: generateSynthesizedData_def Let_def split: option.splits)
  from synthLoop_append [OF this, of extra] this show ?thesis
    by (simp add: generateSynthesizedData_def Let_def)
qed

subsection \<open>Runs on the concrete inputs\<close>

lemma flatScenario_length:
  "length (pathOf (generateSynthesizedData utcHost (flatScenario ac) (quietDraws 39))) = 11"
proof -
  have th: "timeHorizon (flatScenario ac) = real 10" by (simp add: flatScenario_def)
  have dr: "7 * Suc 10 \<le> nonZeroDraws (quietDraws 39)" by (simp add: nonZeroDraws_quietDraws)
  have "length (pathOf (generateSynthesizedData utcHost (flatScenario ac) (quietDraws 39))) = Suc 10"
    by (rule path_length [OF th dr]) (simp_all add: datesValid_utcHost)
  then show ?thesis by simp
qed

lemma initial_length:
  "length (pathOf (generateSynthesizedData utcHost INITIAL_PARAMS (quietDraws 2562))) = 366"
proof -
  have th: "timeHorizon INITIAL_PARAMS = real 365" by (simp add: INITIAL_PARAMS_def)
  have dr: "7 * Suc 365 \<le> nonZeroDraws (quietDraws 2562)" by (simp add: nonZeroDraws_quietDraws)
  have "length (pathOf (generateSynthesizedData utcHost INITIAL_PARAMS (quietDraws 2562))) = Suc 365"
    by (rule path_length [OF th dr]) (simp_all add: datesValid_utcHost)
  then show ?thesis by simp
qed

section \<open>Facts about the pricers\<close>

text \<open>
  The partial sums of the series of \<open>arctan\<close> alternate around it; with Machin's formula
  they give \<open>pi\<close> to ten digits, which is what the value of \<^const>\<open>CND\<close> at 0 needs.
\<close>

lemma arctan_partial_sums:
  fixes x :: real
  assumes "0 < x" and "x \<le> 1"
  shows "(\<Sum>i<2 * n. (- 1) ^ i * (1 / real (i * 2 + 1) * x ^ (i * 2 + 1))) \<le> arctan x"
    and "arctan x \<le> (\<Sum>i<2 * n + 1. (- 1) ^ i * (1 / real (i * 2 + 1) * x ^ (i * 2 + 1)))"
proof -
  have ab: "\<bar>x\<bar> \<le> 1" using assms by simp
  have "0 < 1 / real (0 * 2 + 1) * x ^ (0 * 2 + 1)" using assms by simp
  with summable_Leibniz(2) [OF zeroseq_arctan_series [OF ab] monoseq_arctan_series [OF ab]]
  have "(\<Sum>i. (- 1) ^ i * (1 / real (i * 2 + 1) * x ^ (i * 2 + 1)))
          \<in> {\<Sum>i<2 * n. (- 1) ^ i * (1 / real (i * 2 + 1) * x ^ (i * 2 + 1)) ..
              \<Sum>i<2 * n + 1. (- 1) ^ i * (1 / real (i * 2 + 1) * x ^ (i * 2 + 1))}"
    by blast
  then show "(\<Sum>i<2 * n. (- 1) ^ i * (1 / real (i * 2 + 1) * x ^ (i * 2 + 1))) \<le> arctan x"
    and "arctan x \<le> (\<Sum>i<2 * n + 1. (- 1) ^ i * (1 / real (i * 2 + 1) * x ^ (i * 2 + 1)))"
    unfolding arctan_series [OF ab] by simp_all
qed

lemma arctan_fifth: "0.1973955598498 \<le> arctan (1 / 5)" "arctan (1 / 5) \<le> 0.1973955598499"
proof -
  have "(0.1973955598498::real) \<le> (\<Sum>i<2 * 4. (- 1) ^ i * (1 / real (i * 2 + 1) * (1 / 5) ^ (i * 2 + 1)))"
    by (simp add: eval_nat_numeral)
  also have "\<dots> \<le> arctan (1 / 5)"
    by (rule arctan_partial_sums) simp_all
  finally show "0.1973955598498 \<le> arctan (1 / 5)" .
  have "arctan (1 / 5) \<le> (\<Sum>i<2 * 4 + 1. (- 1) ^ i * (1 / real (i * 2 + 1) * (1 / 5) ^ (i * 2 + 1)))"
    by (rule arctan_partial_sums) simp_all
  also have "\<dots> \<le> (0.1973955598499::real)"
    by (simp add: eval_nat_numeral)
  finally show "arctan (1 / 5) \<le> 0.1973955598499" .
qed

lemma arctan_239th: "0.0041840760018 \<le> arctan (1 / 239)" "arctan (1 / 239) \<le> 0.0041840760021"
proof -
  have "(0.0041840760018::real) \<le> (\<Sum>i<2 * 1. (- 1) ^ i * (1 / real (i * 2 + 1) * (1 / 239) ^ (i * 2 + 1)))"
    by (simp add: eval_nat_numeral)
  also have "\<dots> \<le> arctan (1 / 239)"
    by (rule arctan_partial_sums) simp_all
  finally show "0.0041840760018 \<le> arctan (1 / 239)" .
  have "arctan (1 / 239) \<le> (\<Sum>i<2 * 1 + 1. (- 1) ^ i * (1 / real (i * 2 + 1) * (1 / 239) ^ (i * 2 + 1)))"
    by (rule arctan_partial_sums) simp_all
  also have "\<dots> \<le> (0.0041840760021::real)"
    by (simp add: eval_nat_numeral)
  finally show "arctan (1 / 239) \<le> 0.0041840760021" .
qed

lemma pi_ten_digits: "3.1415926535 \<le> pi" "pi \<le> 3.1415926536"
proof -
  have "pi = 16 * arctan (1 / 5) - 4 * arctan (1 / 239)"
    using machin by simp
  with arctan_fifth arctan_239th show "3.1415926535 \<le> pi" "pi \<le> 3.1415926536"
    by simp_all
qed


lemma CND_zero: "CND 0 = 1 - (156664267 / 125000000) / sqrt (2 * pi)"
  by (simp add: CND_def Let_def)

lemma CND_zero_bounds: "1 / 10 ^ 9 \<le> 2 * CND 0 - 1" "2 * CND 0 - 1 \<le> 11 / 10 ^ 10"
proof -
  let ?A = "156664267 / 125000000 :: real"
  let ?s = "sqrt (2 * pi)"
  have s: "0 < ?s" by simp
  have "(2 * ?A / (1 - 1 / 10 ^ 9))\<^sup>2 \<le> 2 * 3.1415926535"
    by (simp add: power2_eq_square)
  also have "\<dots> \<le> 2 * pi" using pi_ten_digits(1) by simp
  finally have "2 * ?A / (1 - 1 / 10 ^ 9) \<le> ?s"
    by (rule real_le_rsqrt)
  then have "2 * ?A \<le> (1 - 1 / 10 ^ 9) * ?s"
    by (simp add: field_simps)
  then have "2 * ?A / ?s \<le> 1 - 1 / 10 ^ 9"
    using s by (simp add: field_simps)
  then show "1 / 10 ^ 9 \<le> 2 * CND 0 - 1"
    by (simp add: CND_zero)
  have "2 * pi \<le> 2 * 3.1415926536" using pi_ten_digits(2) by simp
  also have "\<dots> \<le> (2 * ?A / (1 - 11 / 10 ^ 10))\<^sup>2"
    by (simp add: power2_eq_square)
  finally have "?s \<le> 2 * ?A / (1 - 11 / 10 ^ 10)"
    by (intro real_le_lsqrt) simp_all
  then have "(1 - 11 / 10 ^ 10) * ?s \<le> 2 * ?A"
    by (simp add: field_simps)
  then have "1 - 11 / 10 ^ 10 \<le> 2 * ?A / ?s"
    using s by (simp add: field_simps)
  then show "2 * CND 0 - 1 \<le> 11 / 10 ^ 10"
    by (simp add: CND_zero)
qed

lemma CND_reflect: "x \<noteq> 0 \<Longrightarrow> CND x + CND (- x) = 1"
  by (cases "x < 0") (simp_all add: CND_def Let_def)

lemma CND_pair: "CND x + CND (- x) - 1 = (if x = 0 then 2 * CND 0 - 1 else 0)"
  using CND_reflect [of x] by simp

lemma scaled_if_bound:
  fixes x e c :: real
  assumes "0 \<le> x" and "0 \<le> e" and "e \<le> c"
  shows "\<bar>x * (if P then e else 0)\<bar> \<le> x * c"
proof (cases P)
  case True
  then show ?thesis using assms by (simp add: abs_mult mult_left_mono)
next
  case False
  then show ?thesis using assms by simp
qed

lemma parity_deviation:
  assumes "0 < T"
  shows "price (calculateBS S K T r sg True) - price (calculateBS S K T r sg False)
           - (S - K * exp (- r * T))
         = S * (CND (bsD1 S K T r sg) + CND (- bsD1 S K T r sg) - 1)
           - K * exp (- r * T) * (CND (bsD2 S K T r sg) + CND (- bsD2 S K T r sg) - 1)"
  using assms by (simp add: calculateBS_def Let_def bsD1_def bsD2_def algebra_simps)

text \<open>The option pricer at and after expiry.\<close>

lemma calculateBS_expired:
  assumes "T \<le> 0"
  shows "price (calculateBS S K T r sg c) = max 0 (if c then S - K else K - S)"
    and "delta (greeks (calculateBS S K T r sg c))
           = (if c then (if S > K then 1 else 0) else (if S < K then - 1 else 0))"
    and "gamma (greeks (calculateBS S K T r sg c)) = 0"
    and "vega (greeks (calculateBS S K T r sg c)) = 0"
    and "thetaGreek (greeks (calculateBS S K T r sg c)) = 0"
    and "rhoGreek (greeks (calculateBS S K T r sg c)) = 0"
  using assms by (simp_all add: calculateBS_def)

text \<open>The Greeks of an at-the-money call at the floor of the time to expiry.\<close>

lemma sqrt_floor: "sqrt (1 / 10000 :: real) = 1 / 100"
  by (rule real_sqrt_unique) (simp_all add: power2_eq_square)

lemma sqrt_two_pi: "sqrt (2 * pi) \<le> 2507 / 1000"
proof -
  have "2 * pi \<le> (2507 / 1000)\<^sup>2" using pi_ten_digits(2) by (simp add: power2_eq_square)
  then show ?thesis by (intro real_le_lsqrt) simp_all
qed

lemma density_near_zero: "39 / 100 \<le> normalPDF (1 / 400)"
proof -
  have e: "1 - 1 / 320000 \<le> exp (- (1 / 320000 :: real))"
    using exp_ge_add_one_self [of "- (1 / 320000 :: real)"] by simp
  have s: "0 < sqrt (2 * pi)" by simp
  have "39 / 100 * sqrt (2 * pi) \<le> 39 / 100 * (2507 / 1000)"
    using sqrt_two_pi by simp
  also have "\<dots> \<le> 1 - 1 / 320000" by simp
  also have "\<dots> \<le> exp (- (1 / 320000 :: real))" by (rule e)
  finally have "39 / 100 \<le> exp (- (1 / 320000 :: real)) / sqrt (2 * pi)"
    using s by (simp add: field_simps)
  then show ?thesis by (simp add: normalPDF_def power2_eq_square)
qed

lemma greeks_at_floor:
  "vega (greeks (calculateBS 100 100 (1 / 10000) (3 / 100) (1 / 5) True)) = normalPDF (1 / 400)"
  "gamma (greeks (calculateBS 100 100 (1 / 10000) (3 / 100) (1 / 5) True)) = 5 * normalPDF (1 / 400)"
  by (simp_all add: calculateBS_def Let_def sqrt_floor)

section \<open>The claims\<close>

subsection \<open>Shape of the path\<close>

text \<open>
  Claim C1. For a whole number of steps \<open>n \<ge> 1\<close> the path has \<open>n + 1\<close> points, the point
  at position \<open>i\<close> has index \<open>i\<close>, and its date is the start date plus \<open>i\<close> days. The
  length and the indices are as claimed (\<open>path_shape\<close>), and so are the dates on a host
  whose offset from UTC is fixed (\<open>path_dates_fixed_offset\<close>). The dates are not as
  claimed on a host whose offset changes during the run: \<^verbatim>\<open>setDate\<close> adds the days in local
  time and \<^verbatim>\<open>toISOString\<close> prints the UTC date. In New York, a run of one step started at
  19:30 on 7 March 2026 (00:30 UTC on 8 March) gives both of its points the date
  2026-03-08 (day 20520), where the second should carry 2026-03-09.
\<close>

theorem dates_repeat_across_dst:
  "map timestamp (pathOf (generateSynthesizedData newYorkHost (INITIAL_PARAMS\<lparr>timeHorizon := 1\<rparr>)
      (quietDraws 7))) = [20520, 20520]"
proof -
  let ?p = "INITIAL_PARAMS\<lparr>timeHorizon := 1\<rparr>"
  let ?path = "pathOf (generateSynthesizedData newYorkHost ?p (quietDraws 7))"
  have th: "timeHorizon ?p = real 1" by simp
  have dr: "7 * Suc 1 \<le> nonZeroDraws (quietDraws 7)" by (simp add: nonZeroDraws_quietDraws)
  have len: "length ?path = 2"
    using path_shape(1) [OF th dr datesValid_newYorkHost, of 0] by simp
  have t0: "timestamp (?path ! 0) = 20520"
    using path_shape(3) [OF th dr datesValid_newYorkHost, of 0] newYork_dates(1) by simp
  have t1: "timestamp (?path ! 1) = 20520"
    using path_shape(3) [OF th dr datesValid_newYorkHost, of 1] newYork_dates(2) by simp
  from len obtain a rest where a: "?path = a # rest" and "length rest = 1"
    by (cases ?path) simp_all
  then obtain b where "rest = [b]"
    by (cases rest) simp_all
  with a t0 t1 show ?thesis by simp
qed

subsection \<open>The square-root model\<close>

lemma ln_small_draw: "ln (1 / 65536 :: real) \<le> - 8"
proof -
  have h: "exp (1 / 2) \<le> (2::real)"
    using exp_bound_half [of "1 / 2 :: real"] by simp
  have "exp (8::real) = exp (real 16 * (1 / 2))" by simp
  also have "\<dots> = exp (1 / 2) ^ 16" by (rule exp_of_nat_mult)
  also have "\<dots> \<le> (2::real) ^ 16" using h by (intro power_mono) simp_all
  finally have "exp (8::real) \<le> 65536" by simp
  then have "8 \<le> ln (65536::real)" by (simp add: ln_ge_iff)
  then show ?thesis by (simp add: ln_div)
qed

lemma strong_shock: "sqrt (- 2 * ln (1 / 65536 :: real)) * cos (2 * pi * (1 / 2)) \<le> - 4"
proof -
  have "(16::real) \<le> - 2 * ln (1 / 65536)" using ln_small_draw by simp
  then have "sqrt 16 \<le> sqrt (- 2 * ln (1 / 65536 :: real))" by (rule real_sqrt_le_mono)
  moreover have "sqrt (16::real) = 4" by (rule real_sqrt_unique) simp_all
  ultimately show ?thesis by simp
qed

lemma sqrt_daily_step: "1 / 16 \<le> sqrt (1 / 252 :: real)"
  by (rule real_le_rsqrt) (simp add: power2_eq_square)

lemma sqrt_small_level: "sqrt (1 / 2500 :: real) = 1 / 50"
  by (rule real_sqrt_unique) (simp_all add: power2_eq_square)

lemma shocked_step:
  fixes z b :: real
  assumes "z \<le> - 4" and "1 / 16 \<le> b"
  shows "1 / 2500 + 2 * (1 / 20 - 1 / 2500) * (1 / 252) + 1 / 5 * (1 / 50) * b * z < 0"
proof -
  have "4 * (1 / 16) \<le> (- z) * b"
    using assms by (intro mult_mono) simp_all
  then have "b * z \<le> - 1 / 4" by (simp add: algebra_simps)
  then have "1 / 5 * (1 / 50) * (b * z) \<le> 1 / 5 * (1 / 50) * (- 1 / 4)"
    by (intro mult_left_mono) simp_all
  then show ?thesis by (simp add: algebra_simps)
qed

lemma cir_step_nonneg:
  assumes "0 \<le> th" and "0 \<le> kd" and "kd \<le> 1" and "0 \<le> noise" and "0 < (L::real)"
  shows "0 \<le> L + (kd * th - kd * L) + sqrt L * noise"
proof -
  have "0 \<le> L * (1 - kd)" using assms by simp
  moreover have "0 \<le> kd * th" using assms by simp
  moreover have "0 \<le> sqrt L * noise" using assms by simp
  ultimately show ?thesis by (simp add: algebra_simps)
qed

lemma advance_cir_quiet:
  assumes "modelType p = INTEREST_RATE_CIR" and "sigma' p = 0"
    and "0 \<le> theta' p" and "0 \<le> kappa' p * dt p" and "kappa' p * dt p \<le> 1"
    and "advance p em r s m rng = Some (s', m', rng')"
  shows "0 \<le> s'"
proof -
  have "0 < max s (0.0001::real)" by simp
  from cir_step_nonneg [OF assms(3,4,5) order_refl this]
  have "0 \<le> max s 0.0001 + (kappa' p * dt p * theta' p - kappa' p * dt p * max s 0.0001)" by simp
  moreover from assms(6) have "s' = max s 0.0001 + kappa' p * (theta' p - max s 0.0001) * dt p"
    by (auto simp: advance_def evolve_cir [OF assms(1)] assms(2) Let_def split: option.splits)
  ultimately show ?thesis by (simp add: algebra_simps)
qed

text \<open>
  Claim C2, as amended, in exact real arithmetic. Under the square-root model with a step
  size \<open>dt > 0\<close> the level that enters a step is \<open>max state 0.0001\<close>, which is positive, so
  the square root is that of a positive number; the next raw state is that level plus the
  reversion plus the diffusion. With \<open>theta \<ge> 0\<close> and \<open>0 \<le> kappa * dt \<le> 1\<close> the next raw
  state is \<open>\<ge> 0\<close> whenever the diffusion term \<open>sigma * sqrt dt * shock\<close> is \<open>\<ge> 0\<close>; in
  particular, with \<open>sigma = 0\<close> and a start \<open>\<ge> 0\<close>, the raw state of every point of every
  path is \<open>\<ge> 0\<close>. The raw state is not floored, and both restrictions are needed: see
  the counterexample. The bound is one of exact arithmetic: where it holds with equality
  or nearly so (\<open>kappa * dt\<close> near 1 and \<open>theta = 0\<close>), the rounding of the doubles can
  leave a state one rounding error (about \<open>-2e-16\<close>) below 0.
\<close>

theorem cir_floor_and_sign:
  assumes "modelType p = INTEREST_RATE_CIR" and "0 < dt p"
  shows "evolve p em eps s rng =
           Some (max s 0.0001 + kappa' p * (theta' p - max s 0.0001) * dt p
                   + sigma' p * sqrt (max s 0.0001) * sqrt (dt p) * eps, rng) \<and>
         0 < max s 0.0001 \<and>
         (0 \<le> theta' p \<and> 0 \<le> kappa' p * dt p \<and> kappa' p * dt p \<le> 1
            \<and> 0 \<le> sigma' p * sqrt (dt p) * eps
          \<longrightarrow> 0 \<le> max s 0.0001 + kappa' p * (theta' p - max s 0.0001) * dt p
                     + sigma' p * sqrt (max s 0.0001) * sqrt (dt p) * eps) \<and>
         (0 \<le> theta' p \<and> 0 \<le> kappa' p * dt p \<and> kappa' p * dt p \<le> 1 \<and> sigma' p = 0
            \<and> 0 \<le> initialValue p
          \<longrightarrow> (\<forall>k<length (pathOf (generateSynthesizedData h p rng0)).
                 0 \<le> underlyingValue (pathOf (generateSynthesizedData h p rng0) ! k)))"
proof (intro conjI impI allI)
  show "evolve p em eps s rng =
           Some (max s 0.0001 + kappa' p * (theta' p - max s 0.0001) * dt p
                   + sigma' p * sqrt (max s 0.0001) * sqrt (dt p) * eps, rng)"
    by (rule evolve_cir [OF assms(1)])
  show "0 < max s 0.0001" by simp
next
  assume a: "0 \<le> theta' p \<and> 0 \<le> kappa' p * dt p \<and> kappa' p * dt p \<le> 1
               \<and> 0 \<le> sigma' p * sqrt (dt p) * eps"
  have "0 < max s (0.0001::real)" by simp
  from cir_step_nonneg [of "theta' p" "kappa' p * dt p" "sigma' p * sqrt (dt p) * eps", OF _ _ _ _ this] a
  show "0 \<le> max s 0.0001 + kappa' p * (theta' p - max s 0.0001) * dt p
               + sigma' p * sqrt (max s 0.0001) * sqrt (dt p) * eps"
    by (simp add: algebra_simps)
next
  fix k
  assume a: "0 \<le> theta' p \<and> 0 \<le> kappa' p * dt p \<and> kappa' p * dt p \<le> 1 \<and> sigma' p = 0
               \<and> 0 \<le> initialValue p"
    and k: "k < length (pathOf (generateSynthesizedData h p rng0))"
  show "0 \<le> underlyingValue (pathOf (generateSynthesizedData h p rng0) ! k)"
  proof (rule path_invariant [where P = "\<lambda>x. 0 \<le> x", OF _ _ k])
    show "0 \<le> initialValue p" using a by simp
  next
    fix s m rng s' m' rng'
    assume "advance p (effectiveMu p) (rho p) s m rng = Some (s', m', rng')"
    from advance_cir_quiet [OF assms(1) _ _ _ _ this] a show "0 \<le> s'" by simp
  qed
qed

theorem cir_floor_and_sign_witness:
  "modelType cirCalm = INTEREST_RATE_CIR \<and>
   evolve cirCalm 0 1 0 [] = Some (1 / 10000 + 2 * (1 / 50 - 1 / 10000) * (1 / 252), []) \<and>
   0 \<le> underlyingValue (pathOf (generateSynthesizedData utcHost cirCalm (quietDraws 7)) ! 1) \<and>
   1 < length (pathOf (generateSynthesizedData utcHost cirCalm (quietDraws 7)))"
proof -
  have th: "timeHorizon cirCalm = real 1" by (simp add: cirCalm_def cirScenario_def)
  have dr: "7 * Suc 1 \<le> nonZeroDraws (quietDraws 7)" by (simp add: nonZeroDraws_quietDraws)
  have len: "length (pathOf (generateSynthesizedData utcHost cirCalm (quietDraws 7))) = Suc 1"
    by (rule path_length [OF th dr]) (simp_all add: datesValid_utcHost)
  have mt: "modelType cirCalm = INTEREST_RATE_CIR" by (simp add: cirCalm_def cirScenario_def)
  have dt: "0 < dt cirCalm" by (simp add: cirCalm_def cirScenario_def)
  show ?thesis
    using cir_floor_and_sign [OF mt dt, of 0 1 0 "[]" utcHost "quietDraws 7"] len mt
    by (simp add: cirCalm_def cirScenario_def defaults)
qed

lemma cir_overshoot:
  "underlyingValue (pathOf (generateSynthesizedData utcHost cirScenario (quietDraws 7)) ! 1) < 0"
proof -
  let ?path = "pathOf (generateSynthesizedData utcHost cirScenario (quietDraws 7))"
  have th: "timeHorizon cirScenario = real 1" by (simp add: cirScenario_def)
  have dr: "7 * Suc 1 \<le> nonZeroDraws (quietDraws 7)" by (simp add: nonZeroDraws_quietDraws)
  have "length ?path = Suc 1"
    by (rule path_length [OF th dr]) (simp_all add: datesValid_utcHost)
  then have "1 < length ?path" by simp
  from path_second [OF this] obtain s' m' rng' where
    adv: "advance cirScenario (effectiveMu cirScenario) (rho cirScenario)
            (initialValue cirScenario) (initialValue cirScenario) (quietDraws 7) = Some (s', m', rng')"
    and s': "underlyingValue (?path ! 1) = s'" by blast
  have "s' = - 3 / 40"
    using adv
    by (simp add: advance_def getStandardNormal_quiet evolve_def assetEpsilon_def Let_def
        cirScenario_def defaults)
  with s' show ?thesis by simp
qed

lemma cir_shocked:
  "underlyingValue (pathOf (generateSynthesizedData utcHost cirDefaults shockDraws) ! 1) < 0"
proof -
  let ?path = "pathOf (generateSynthesizedData utcHost cirDefaults shockDraws)"
  define z :: real where "z = sqrt (- 2 * ln (1 / 65536)) * cos (2 * pi * (1 / 2))"
  have th: "timeHorizon cirDefaults = real 1" by (simp add: cirDefaults_def cirScenario_def)
  have dr: "7 * Suc 1 \<le> nonZeroDraws shockDraws"
    by (simp add: shockDraws_def nonZeroDraws_def quietDraws_def eval_nat_numeral)
  have "length ?path = Suc 1"
    by (rule path_length [OF th dr]) (simp_all add: datesValid_utcHost)
  then have "1 < length ?path" by simp
  from path_second [OF this] obtain s' m' rng' where
    adv: "advance cirDefaults (effectiveMu cirDefaults) (rho cirDefaults)
            (initialValue cirDefaults) (initialValue cirDefaults) shockDraws = Some (s', m', rng')"
    and s': "underlyingValue (?path ! 1) = s'" by blast
  have g1: "getStandardNormal shockDraws = Some (0, [1 / 65536, 1 / 2] @ quietDraws 5)"
    by (simp add: getStandardNormal_def shockDraws_def)
  have g2: "getStandardNormal ([1 / 65536, 1 / 2] @ quietDraws 5) = Some (z, quietDraws 5)"
    by (simp add: getStandardNormal_def z_def)
  have fields: "modelType cirDefaults = INTEREST_RATE_CIR" "rho cirDefaults = 0"
    "kappa' cirDefaults = 2" "theta' cirDefaults = 1 / 20" "sigma' cirDefaults = 1 / 5"
    "dt cirDefaults = 1 / 252" "max (initialValue cirDefaults) 0.0001 = 1 / 2500"
    by (simp_all add: rho_def objectKeys_def cirDefaults_def cirScenario_def defaults)
  from advance_cir_value [OF fields(1) g1 g2 adv]
  have "s' = 1 / 2500 + 2 * (1 / 20 - 1 / 2500) * (1 / 252)
               + 1 / 5 * (1 / 50) * sqrt (1 / 252) * z"
    unfolding fields sqrt_small_level by (simp add: assetEpsilon_def)
  moreover have "z \<le> - 4" unfolding z_def by (rule strong_shock)
  ultimately show ?thesis using shocked_step [OF _ sqrt_daily_step, of z] s' by simp
qed

text \<open>
  Claim C2 as stated fails: the raw state of a point can be negative. With the monthly
  scenario (\<open>kappa * dt = 50 / 12\<close>) and shocks that are all zero, the second point has
  the raw state \<open>0.05 + 50 * (0.02 - 0.05) / 12 = -0.075\<close>. With daily steps, the default
  speed, target and volatility (\<open>kappa * dt = 2 / 252\<close>) and a first shock of about -4.7,
  the second point has a negative raw state as well.
\<close>

theorem cir_state_counterexample:
  "underlyingValue (pathOf (generateSynthesizedData utcHost cirScenario (quietDraws 7)) ! 1) < 0 \<and>
   underlyingValue (pathOf (generateSynthesizedData utcHost cirDefaults shockDraws) ! 1) < 0"
  using cir_overshoot cir_shocked by simp

subsection \<open>The option pricer at expiry\<close>

text \<open>
  Claim C3. Invoked with a time to expiry of zero or at the floor, the option pricer should
  return the intrinsic payoff, a delta of 1 or 0 (call) and 0 or -1 (put), and zero gamma,
  vega, theta and rho. It does so for \<open>T \<le> 0\<close> (\<open>calculateBS_expired\<close>), and not at the
  floor: the pricer tests \<open>T \<le> 0\<close> and the engine passes \<open>max 0.0001 (expiryTime - i / 365)\<close>,
  so at and after expiry the engine calls the pricer with \<open>T = 0.0001\<close> and gets the
  Black-Scholes formulas. In the run of \<open>expiredOption\<close> the point at index 10, six steps
  after expiry, carries the Greeks of \<open>calculateBS 100 100 0.0001 0.03 0.2 True\<close>, whose
  vega is at least 0.39 and whose gamma is at least 1.9.
\<close>

theorem floor_is_priced_by_the_formulas:
  "pointGreeks (pathOf (generateSynthesizedData utcHost expiredOption (quietDraws 39)) ! 10)
     = Some (greeks (calculateBS 100 100 (1 / 10000) (3 / 100) (1 / 5) True)) \<and>
   39 / 100 \<le> vega (greeks (calculateBS 100 100 (1 / 10000) (3 / 100) (1 / 5) True)) \<and>
   19 / 10 \<le> gamma (greeks (calculateBS 100 100 (1 / 10000) (3 / 100) (1 / 5) True))"
proof -
  let ?path = "pathOf (generateSynthesizedData utcHost expiredOption (quietDraws 39))"
  have th: "timeHorizon expiredOption = real 10" by (simp add: expiredOption_def flatScenario_def)
  have dr: "7 * Suc 10 \<le> nonZeroDraws (quietDraws 39)" by (simp add: nonZeroDraws_quietDraws)
  have "length ?path = Suc 10"
    by (rule path_length [OF th dr]) (simp_all add: datesValid_utcHost)
  then have k: "10 < length ?path" by simp
  have fields: "modelType expiredOption = EQUITY_GBM" "sigma' expiredOption = 0"
    "effectiveMu expiredOption = 0" "initialValue expiredOption = 100"
    "assetClass expiredOption = OPTION" "strikePrice' expiredOption = 100"
    "riskFreeRate' expiredOption = 3 / 100" "pricingVol expiredOption = 1 / 5"
    "isCall' expiredOption = True" "expiryTime' expiredOption = 1 / 100"
    by (simp_all add: expiredOption_def flatScenario_def effectiveMu_def pricingVol_def orElse_def
        defaults)
  have u: "underlyingValue (?path ! 10) = initialValue expiredOption"
  proof (rule path_invariant [where P = "\<lambda>x. x = initialValue expiredOption", OF _ _ k])
    fix s m rng s' m' rng'
    assume "s = initialValue expiredOption"
      and "advance expiredOption (effectiveMu expiredOption) (rho expiredOption) s m rng
             = Some (s', m', rng')"
    then show "s' = initialValue expiredOption"
      using advance_gbm_flat [OF fields(1,2), of "rho expiredOption" s m rng s' m' rng'] fields(3)
      by simp
  qed simp
  from path_point [OF k] obtain s m where
    "makePoint utcHost expiredOption (now utcHost) 10 s m = Inr (?path ! 10)" by blast
  from makePoint_Inr [OF this]
  have "pointGreeks (?path ! 10) = shownGreeks (domainLogic expiredOption 10 (underlyingValue (?path ! 10)))"
    by simp
  also have "\<dots> = Some (greeks (calculateBS 100 100 (1 / 10000) (3 / 100) (1 / 5) True))"
    unfolding u by (simp add: domainLogic_def Let_def fields)
  finally show ?thesis
    using density_near_zero by (simp add: greeks_at_floor)
qed

subsection \<open>What a run depends on\<close>

text \<open>
  Claim C4, as amended. A run is a function of its parameters, of the draws it reads and
  of the host (its clock and time zone, which fix the dates). Two runs with the same
  parameters and the same draws on two hosts, neither with a date out of range, return
  results that are equal in every field but the dates; and draws that follow the ones a
  run has read do not change its result.
\<close>

theorem result_of_parameters_draws_and_clock:
  "((\<forall>k. real k \<le> timeHorizon p \<longrightarrow>
        currentDate h1 (now h1) k \<noteq> None \<and> currentDate h2 (now h2) k \<noteq> None)
      \<longrightarrow> withoutDates (generateSynthesizedData h1 p rng)
            = withoutDates (generateSynthesizedData h2 p rng)) \<and>
   (generateSynthesizedData h1 p rng \<noteq> None
      \<longrightarrow> generateSynthesizedData h1 p (rng @ extra) = generateSynthesizedData h1 p rng)"
  using result_depends_on_host_only_in_dates [of p h1 h2 rng]
    generateSynthesizedData_append [of h1 p rng extra]
  by blast

theorem result_of_parameters_draws_and_clock_witness:
  "withoutDates (generateSynthesizedData utcHost INITIAL_PARAMS (quietDraws 2562))
     = withoutDates (generateSynthesizedData utcHostNextDay INITIAL_PARAMS (quietDraws 2562)) \<and>
   generateSynthesizedData utcHost INITIAL_PARAMS (quietDraws 2562 @ [3 / 10, 7 / 10])
     = generateSynthesizedData utcHost INITIAL_PARAMS (quietDraws 2562)"
proof -
  have dates: "\<forall>k. real k \<le> timeHorizon INITIAL_PARAMS \<longrightarrow>
          currentDate utcHost (now utcHost) k \<noteq> None
          \<and> currentDate utcHostNextDay (now utcHostNextDay) k \<noteq> None"
    by (simp add: INITIAL_PARAMS_def utcHost_date utcHostNextDay_date)
  have "generateSynthesizedData utcHost INITIAL_PARAMS (quietDraws 2562) \<noteq> None"
    using initial_length by (auto simp: pathOf_def split: option.splits)
  with dates
    result_of_parameters_draws_and_clock
      [of INITIAL_PARAMS utcHost utcHostNextDay "quietDraws 2562" "[3 / 10, 7 / 10]"]
  show ?thesis by blast
qed

text \<open>
  Claim C4 as stated fails: the same parameters and the same draws on two days give two
  results, which differ in the dates of their points.
\<close>

theorem result_depends_on_clock_counterexample:
  "generateSynthesizedData utcHost (flatScenario EQUITY) (quietDraws 39)
     \<noteq> generateSynthesizedData utcHostNextDay (flatScenario EQUITY) (quietDraws 39)"
proof
  assume eq: "generateSynthesizedData utcHost (flatScenario EQUITY) (quietDraws 39)
     = generateSynthesizedData utcHostNextDay (flatScenario EQUITY) (quietDraws 39)"
  let ?p1 = "pathOf (generateSynthesizedData utcHost (flatScenario EQUITY) (quietDraws 39))"
  let ?p2 = "pathOf (generateSynthesizedData utcHostNextDay (flatScenario EQUITY) (quietDraws 39))"
  have th: "timeHorizon (flatScenario EQUITY) = real 10" by (simp add: flatScenario_def)
  have dr: "7 * Suc 10 \<le> nonZeroDraws (quietDraws 39)" by (simp add: nonZeroDraws_quietDraws)
  have l1: "0 < length ?p1" by (simp add: flatScenario_length)
  have "length ?p2 = Suc 10"
    by (rule path_length [OF th dr]) (simp_all add: datesValid_utcHostNextDay)
  then have l2: "0 < length ?p2" by simp
  have "tzaOfUTC utcHost = (\<lambda>t. 0)" "tzaOfLocal utcHost = (\<lambda>t. 0)" by (simp_all add: utcHost_def)
  from path_dates_fixed_offset [OF this l1] have t1: "timestamp (?p1 ! 0) = 20760"
    by (simp add: utcHost_def Day_def msPerDay_def)
  have "tzaOfUTC utcHostNextDay = (\<lambda>t. 0)" "tzaOfLocal utcHostNextDay = (\<lambda>t. 0)"
    by (simp_all add: utcHostNextDay_def utcHost_def)
  from path_dates_fixed_offset [OF this l2] have t2: "timestamp (?p2 ! 0) = 20761"
    by (simp add: utcHostNextDay_def utcHost_def Day_def msPerDay_def)
  from eq have "?p1 = ?p2" by simp
  with t1 t2 show False by simp
qed

subsection \<open>Put-call parity\<close>

text \<open>
  Claim C5, as amended. For \<open>S, K, T, sigma > 0\<close> the call and put prices satisfy
  \<open>call - put = S - K * exp (- r * T)\<close> exactly when neither \<open>d1\<close> nor \<open>d2\<close> is zero, and in
  every case within \<open>1.1e-9 * (S + K * exp (- r * T))\<close>: the approximation of the normal
  distribution function is not \<open>1 / 2\<close> at 0.
\<close>

theorem put_call_parity:
  assumes "0 < S" and "0 < K" and "0 < T" and "0 < sg"
  shows "(bsD1 S K T r sg \<noteq> 0 \<and> bsD2 S K T r sg \<noteq> 0 \<longrightarrow>
            price (calculateBS S K T r sg True) - price (calculateBS S K T r sg False)
              = S - K * exp (- r * T)) \<and>
         \<bar>price (calculateBS S K T r sg True) - price (calculateBS S K T r sg False)
            - (S - K * exp (- r * T))\<bar> \<le> 11 / 10 ^ 10 * (S + K * exp (- r * T))"
proof -
  let ?dev = "price (calculateBS S K T r sg True) - price (calculateBS S K T r sg False)
                - (S - K * exp (- r * T))"
  let ?e = "2 * CND 0 - 1"
  let ?D = "K * exp (- r * T)"
  have dev: "?dev = S * (if bsD1 S K T r sg = 0 then ?e else 0)
                    - ?D * (if bsD2 S K T r sg = 0 then ?e else 0)"
    unfolding parity_deviation [OF assms(3)] CND_pair ..
  have e0: "0 \<le> ?e" using CND_zero_bounds(1) by simp
  have D0: "0 < ?D" using assms(2) by simp
  have a: "\<bar>S * (if bsD1 S K T r sg = 0 then ?e else 0)\<bar> \<le> S * (11 / 10 ^ 10)"
    by (rule scaled_if_bound [OF _ e0 CND_zero_bounds(2)]) (use assms(1) in simp)
  have b: "\<bar>?D * (if bsD2 S K T r sg = 0 then ?e else 0)\<bar> \<le> ?D * (11 / 10 ^ 10)"
    by (rule scaled_if_bound [OF _ e0 CND_zero_bounds(2)]) (use D0 in simp)
  have "\<bar>?dev\<bar> \<le> \<bar>S * (if bsD1 S K T r sg = 0 then ?e else 0)\<bar>
                   + \<bar>?D * (if bsD2 S K T r sg = 0 then ?e else 0)\<bar>"
    unfolding dev by (rule abs_triangle_ineq4)
  also have "\<dots> \<le> S * (11 / 10 ^ 10) + ?D * (11 / 10 ^ 10)"
    using a b by (rule add_mono)
  finally have bound: "\<bar>?dev\<bar> \<le> 11 / 10 ^ 10 * (S + ?D)"
    by (simp add: algebra_simps)
  have exact: "bsD1 S K T r sg \<noteq> 0 \<and> bsD2 S K T r sg \<noteq> 0 \<Longrightarrow> ?dev = 0"
    using dev by simp
  show ?thesis using bound exact by auto
qed

theorem put_call_parity_witness:
  "price (calculateBS 100 100 1 0.03 0.2 True) - price (calculateBS 100 100 1 0.03 0.2 False)
     = 100 - 100 * exp (- 0.03 * 1)"
proof -
  have "bsD1 100 100 1 0.03 0.2 \<noteq> 0" and "bsD2 100 100 1 0.03 0.2 \<noteq> 0"
    by (simp_all add: bsD1_def bsD2_def)
  with put_call_parity [of 100 100 1 "0.2" "0.03"] show ?thesis by simp
qed

text \<open>
  Claim C5 as stated fails with the tolerance \<open>1e-6\<close>: for \<open>S = K = 1000000\<close>, \<open>T = 1\<close>,
  \<open>sigma = 1 / 2\<close> and \<open>r = - 1 / 8\<close>, where \<open>d1 = 0\<close>, the two sides differ by more than
  \<open>1e-3\<close>.
\<close>

theorem put_call_parity_counterexample:
  "1 / 1000 \<le> price (calculateBS 1000000 1000000 1 (- 1 / 8) (1 / 2) True)
                 - price (calculateBS 1000000 1000000 1 (- 1 / 8) (1 / 2) False)
                 - (1000000 - 1000000 * exp (- (- 1 / 8) * 1))"
proof -
  have z1: "bsD1 1000000 1000000 1 (- 1 / 8) (1 / 2) = 0"
    by (simp add: bsD1_def)
  have z2: "bsD2 1000000 1000000 1 (- 1 / 8) (1 / 2) \<noteq> 0"
    unfolding bsD2_def z1 by simp
  have "price (calculateBS 1000000 1000000 1 (- 1 / 8) (1 / 2) True)
          - price (calculateBS 1000000 1000000 1 (- 1 / 8) (1 / 2) False)
          - (1000000 - 1000000 * exp (- (- 1 / 8) * 1))
        = 1000000 * (CND (bsD1 1000000 1000000 1 (- 1 / 8) (1 / 2))
                     + CND (- bsD1 1000000 1000000 1 (- 1 / 8) (1 / 2)) - 1)
          - 1000000 * exp (- (- 1 / 8) * 1)
            * (CND (bsD2 1000000 1000000 1 (- 1 / 8) (1 / 2))
               + CND (- bsD2 1000000 1000000 1 (- 1 / 8) (1 / 2)) - 1)"
    by (rule parity_deviation) simp
  also have "\<dots> = 1000000 * (2 * CND 0 - 1)"
    unfolding CND_pair using z1 z2 by simp
  finally have "price (calculateBS 1000000 1000000 1 (- 1 / 8) (1 / 2) True)
          - price (calculateBS 1000000 1000000 1 (- 1 / 8) (1 / 2) False)
          - (1000000 - 1000000 * exp (- (- 1 / 8) * 1))
        = 1000000 * (2 * CND 0 - 1)" .
  with CND_zero_bounds(1) show ?thesis by simp
qed

subsection \<open>The flat path\<close>

text \<open>
  Claim C6, as amended. Under the growth model with zero volatility, zero effective
  drift and a step size \<open>dt > 0\<close>, the raw state of every point is the initial value; so is the displayed value for
  the asset classes that display the raw state: equity, FX, central-bank rate and total
  productivity; commodity, inflation rate and GDP growth without a seasonal amplitude;
  forwards and futures, whose carry factor is 1 when the effective drift is zero; and the
  unemployment rate when the initial value is at least its floor 2. In the scenario
  \<open>flatScenario EQUITY\<close> every displayed value is 100.
\<close>

theorem flat_growth_path:
  assumes "modelType p = EQUITY_GBM" and "sigma' p = 0" and "effectiveMu p = 0" and "0 < dt p"
    and "k < length (pathOf (generateSynthesizedData h p rng))"
  shows "underlyingValue (pathOf (generateSynthesizedData h p rng) ! k) = initialValue p \<and>
         (assetClass p \<in> {EQUITY, FX, CENTRAL_BANK_RATE, TOTAL_PRODUCTIVITY, FORWARD, FUTURE}
            \<or> assetClass p \<in> {COMMODITY, INFLATION_RATE, GDP_GROWTH} \<and> seasonalAmplitude' p \<le> 0
            \<or> assetClass p = UNEMPLOYMENT_RATE \<and> 2 \<le> initialValue p
          \<longrightarrow> displayValue (pathOf (generateSynthesizedData h p rng) ! k) = initialValue p)"
proof -
  let ?pt = "pathOf (generateSynthesizedData h p rng) ! k"
  have u: "underlyingValue ?pt = initialValue p"
  proof (rule path_invariant [where P = "\<lambda>x. x = initialValue p", OF _ _ assms(5)])
    fix s m rng s' m' rng'
    assume "s = initialValue p"
      and "advance p (effectiveMu p) (rho p) s m rng = Some (s', m', rng')"
    then show "s' = initialValue p"
      using advance_gbm_flat [OF assms(1,2), of "rho p" s m rng s' m' rng'] assms(3) by simp
  qed simp
  from path_point [OF assms(5)] obtain s m where
    "makePoint h p (now h) k s m = Inr ?pt" by blast
  from makePoint_Inr [OF this] have d: "displayValue ?pt = shownValue (domainLogic p k (underlyingValue ?pt))"
    by simp
  have plain: "assetClass p \<in> {EQUITY, FX, CENTRAL_BANK_RATE, TOTAL_PRODUCTIVITY}
            \<or> assetClass p \<in> {COMMODITY, INFLATION_RATE, GDP_GROWTH} \<and> seasonalAmplitude' p \<le> 0
        \<Longrightarrow> shownValue (domainLogic p k x) = x" for x
    by (auto simp: domainLogic_def seasonalShift_def Let_def)
  have carry: "assetClass p \<in> {FORWARD, FUTURE} \<Longrightarrow> shownValue (domainLogic p k x) = x" for x
    using assms(3) by (auto simp: domainLogic_def effectiveMu_def Let_def)
  have floor: "assetClass p = UNEMPLOYMENT_RATE \<Longrightarrow> 2 \<le> x \<Longrightarrow> shownValue (domainLogic p k x) = x"
    for x
    by (simp add: domainLogic_def seasonalShift_def Let_def)
  show ?thesis using u d plain carry floor by auto
qed

theorem flat_growth_path_witness:
  "map displayValue (pathOf (generateSynthesizedData utcHost (flatScenario EQUITY) (quietDraws 39)))
     = replicate 11 100"
proof -
  let ?path = "pathOf (generateSynthesizedData utcHost (flatScenario EQUITY) (quietDraws 39))"
  have len: "length ?path = 11" by (rule flatScenario_length)
  have "displayValue (?path ! k) = 100" if "k < 11" for k
    using flat_growth_path [of "flatScenario EQUITY" k utcHost "quietDraws 39"] that len
    by (simp add: flatScenario_def effectiveMu_def defaults)
  then show ?thesis using len by (simp add: list_eq_iff_nth_eq)
qed

text \<open>
  Claim C6 as stated fails for an asset class with a display transform: in the same
  scenario with the asset class \<open>FIXED_INCOME\<close> the first displayed value is
  \<open>0.03 + 0.01 + 0 + 100 = 100.04\<close>.
\<close>

theorem flat_growth_path_counterexample:
  "displayValue (pathOf (generateSynthesizedData utcHost (flatScenario FIXED_INCOME) (quietDraws 39)) ! 0)
     = 10004 / 100"
proof -
  let ?path = "pathOf (generateSynthesizedData utcHost (flatScenario FIXED_INCOME) (quietDraws 39))"
  have "0 < length ?path" by (simp add: flatScenario_length)
  from makePoint_Inr [OF path_first [OF this]]
  have "displayValue (?path ! 0)
          = shownValue (domainLogic (flatScenario FIXED_INCOME) 0 (initialValue (flatScenario FIXED_INCOME)))"
    by simp
  then show ?thesis by (simp add: domainLogic_def Let_def flatScenario_def defaults)
qed

subsection \<open>Values fixed before the loop\<close>

text \<open>
  Claim C7. The effective drift depends on the asset class alone: equities use
  \<open>mu - dividendYield\<close>, FX uses \<open>mu + (domesticRate - foreignRate)\<close>, commodities use
  \<open>mu + (storageCost - convenienceYield)\<close>, forwards and futures use
  \<open>riskFreeRate - dividendYield\<close> without \<open>mu\<close>, the unemployment rate uses 0, and every
  other asset class uses \<open>mu\<close>. It is a function of the parameters, which
  \<^const>\<open>generateSynthesizedData\<close> evaluates before the loop and hands to every step.
\<close>

theorem effective_drift_by_asset_class:
  "(assetClass p = EQUITY \<longrightarrow> effectiveMu p = mu' p - dividendYield' p) \<and>
   (assetClass p = FX \<longrightarrow> effectiveMu p = mu' p + (domesticRate' p - foreignRate' p)) \<and>
   (assetClass p = COMMODITY \<longrightarrow> effectiveMu p = mu' p + (storageCost' p - convenienceYield' p)) \<and>
   (assetClass p = FORWARD \<or> assetClass p = FUTURE
      \<longrightarrow> effectiveMu p = riskFreeRate' p - dividendYield' p) \<and>
   (assetClass p = UNEMPLOYMENT_RATE \<longrightarrow> effectiveMu p = 0) \<and>
   (assetClass p \<in> {FIXED_INCOME, OPTION, SWAP, SWAPTION, CENTRAL_BANK_RATE, INFLATION_RATE,
                      TOTAL_PRODUCTIVITY, GDP_GROWTH} \<longrightarrow> effectiveMu p = mu' p)"
  by (auto simp: effectiveMu_def)

theorem effective_drift_by_asset_class_witness:
  "effectiveMu INITIAL_PARAMS = 0.06 \<and>
   effectiveMu (INITIAL_PARAMS\<lparr>assetClass := FX, domesticRate := Some 0.04,
                                foreignRate := Some 0.01\<rparr>) = 0.11 \<and>
   effectiveMu (INITIAL_PARAMS\<lparr>assetClass := COMMODITY, storageCost := Some 0.02\<rparr>) = 0.1 \<and>
   effectiveMu (INITIAL_PARAMS\<lparr>assetClass := FORWARD\<rparr>) = 0.01 \<and>
   effectiveMu (INITIAL_PARAMS\<lparr>assetClass := FUTURE\<rparr>) = 0.01 \<and>
   effectiveMu (INITIAL_PARAMS\<lparr>assetClass := UNEMPLOYMENT_RATE\<rparr>) = 0 \<and>
   effectiveMu (INITIAL_PARAMS\<lparr>assetClass := OPTION\<rparr>) = 0.08"
  using effective_drift_by_asset_class [of INITIAL_PARAMS]
    effective_drift_by_asset_class
      [of "INITIAL_PARAMS\<lparr>assetClass := FX, domesticRate := Some 0.04, foreignRate := Some 0.01\<rparr>"]
    effective_drift_by_asset_class
      [of "INITIAL_PARAMS\<lparr>assetClass := COMMODITY, storageCost := Some 0.02\<rparr>"]
    effective_drift_by_asset_class [of "INITIAL_PARAMS\<lparr>assetClass := FORWARD\<rparr>"]
    effective_drift_by_asset_class [of "INITIAL_PARAMS\<lparr>assetClass := FUTURE\<rparr>"]
    effective_drift_by_asset_class [of "INITIAL_PARAMS\<lparr>assetClass := UNEMPLOYMENT_RATE\<rparr>"]
    effective_drift_by_asset_class [of "INITIAL_PARAMS\<lparr>assetClass := OPTION\<rparr>"]
  by (simp add: INITIAL_PARAMS_def defaults)

lemma factorSum_all:
  "factorSum c (objectKeys c) =
     dflt 0 (equity c) + dflt 0 (rates c) + dflt 0 (volatility c) + dflt 0 (commodity c)"
  by (cases "equity c"; cases "rates c"; cases "volatility c"; cases "commodity c")
     (simp_all add: factorSum_def objectKeys_def dflt_def orElse_def)

text \<open>
  Claim C8. The correlation coefficient of a run is the sum of the coefficients of the
  factors that are present, clamped to \<open>[-1, 1]\<close>, and 0 when no factor is present. It is
  a function of the parameters, evaluated before the loop and handed to every step. So
  \<open>1 - rho\<^sup>2\<close> is never negative, and the square root in the coupled shock is the
  square root of a non-negative number.
\<close>

theorem rho_clamped_sum:
  "rho p = max (- 1) (min 1 (dflt 0 (equity (correlations' p)) + dflt 0 (rates (correlations' p))
                              + dflt 0 (volatility (correlations' p))
                              + dflt 0 (commodity (correlations' p)))) \<and>
   (objectKeys (correlations' p) = [] \<longrightarrow> rho p = 0) \<and>
   - 1 \<le> rho p \<and> rho p \<le> 1 \<and> 0 \<le> 1 - rho p * rho p \<and>
   (sqrt (1 - rho p * rho p))\<^sup>2 = 1 - rho p * rho p"
proof -
  let ?s = "dflt 0 (equity (correlations' p)) + dflt 0 (rates (correlations' p))
            + dflt 0 (volatility (correlations' p)) + dflt 0 (commodity (correlations' p))"
  have empty: "objectKeys (correlations' p) = [] \<Longrightarrow> ?s = 0"
    by (cases "equity (correlations' p)"; cases "rates (correlations' p)";
        cases "volatility (correlations' p)"; cases "commodity (correlations' p)")
       (simp_all add: objectKeys_def dflt_def)
  have eq: "rho p = max (- 1) (min 1 ?s)"
  proof (cases "objectKeys (correlations' p) = []")
    case True
    then show ?thesis using empty by (simp add: rho_def)
  next
    case False
    then show ?thesis by (simp add: rho_def factorSum_all)
  qed
  have lo: "- 1 \<le> rho p" and hi: "rho p \<le> 1"
    unfolding eq by simp_all
  have "0 \<le> (1 - rho p) * (1 + rho p)"
    using lo hi by (intro mult_nonneg_nonneg) simp_all
  then have sq: "0 \<le> 1 - rho p * rho p"
    by (simp add: algebra_simps)
  show ?thesis using eq lo hi sq empty by (simp add: rho_def)
qed

theorem rho_clamped_sum_witness:
  "rho INITIAL_PARAMS = 0.1 \<and> rho (INITIAL_PARAMS\<lparr>correlations := None\<rparr>) = 0 \<and>
   rho (INITIAL_PARAMS\<lparr>correlations :=
          Some \<lparr>equity = Some 0.7, rates = Some 0.6, volatility = None, commodity = None\<rparr>\<rparr>) = 1"
  using rho_clamped_sum [of INITIAL_PARAMS]
    rho_clamped_sum [of "INITIAL_PARAMS\<lparr>correlations := None\<rparr>"]
    rho_clamped_sum [of "INITIAL_PARAMS\<lparr>correlations :=
          Some \<lparr>equity = Some 0.7, rates = Some 0.6, volatility = None, commodity = None\<rparr>\<rparr>"]
  by (simp add: INITIAL_PARAMS_def defaults)

text \<open>
  Claim C9. The coupled shock \<open>rho * Zm + sqrt (1 - rho\<^sup>2) * Zi\<close> is the market shock
  \<open>Zm\<close> when \<open>rho = 1\<close>, the idiosyncratic shock \<open>Zi\<close> when \<open>rho = 0\<close>, and \<open>- Zm\<close> when
  \<open>rho = -1\<close>.
\<close>

theorem coupled_shock_extremes:
  "assetEpsilon 1 Zm Zi = Zm \<and> assetEpsilon 0 Zm Zi = Zi \<and> assetEpsilon (- 1) Zm Zi = - Zm"
  by (simp add: assetEpsilon_def)

subsection \<open>The volatility handed to the pricers\<close>

text \<open>
  The volatility handed to the pricers is \<^const>\<open>pricingVol\<close>, at every point of the path.
\<close>

lemma pricing_vol_passed:
  assumes "k < length (pathOf (generateSynthesizedData h p rng))"
  shows "pricingVol p = (case impliedVol p of
                           None \<Rightarrow> 0.2
                         | Some v \<Rightarrow> if v \<noteq> 0 then v else (case sigma p of None \<Rightarrow> 0.2 | Some s \<Rightarrow> s)) \<and>
         (assetClass p = OPTION \<longrightarrow>
            displayValue (pathOf (generateSynthesizedData h p rng) ! k)
              = price (calculateBS (underlyingValue (pathOf (generateSynthesizedData h p rng) ! k))
                         (strikePrice' p) (max 0.0001 (expiryTime' p - real k / 365))
                         (riskFreeRate' p) (pricingVol p) (isCall' p)) \<and>
            pointGreeks (pathOf (generateSynthesizedData h p rng) ! k)
              = Some (greeks (calculateBS (underlyingValue (pathOf (generateSynthesizedData h p rng) ! k))
                         (strikePrice' p) (max 0.0001 (expiryTime' p - real k / 365))
                         (riskFreeRate' p) (pricingVol p) (isCall' p)))) \<and>
         (assetClass p = SWAPTION \<longrightarrow>
            displayValue (pathOf (generateSynthesizedData h p rng) ! k)
              = price (calculateBlackSwaption
                         (underlyingValue (pathOf (generateSynthesizedData h p rng) ! k))
                         (orElse (strikePrice' p / 1000) 0.03)
                         (max 0.0001 (expiryTime' p - real k / 365))
                         (riskFreeRate' p) (pricingVol p) (isCall' p)) \<and>
            pointGreeks (pathOf (generateSynthesizedData h p rng) ! k)
              = Some (greeks (calculateBlackSwaption
                         (underlyingValue (pathOf (generateSynthesizedData h p rng) ! k))
                         (orElse (strikePrice' p / 1000) 0.03)
                         (max 0.0001 (expiryTime' p - real k / 365))
                         (riskFreeRate' p) (pricingVol p) (isCall' p))))"
proof -
  from path_point [OF assms] obtain s m where
    "makePoint h p (now h) k s m = Inr (pathOf (generateSynthesizedData h p rng) ! k)" by blast
  note pt = makePoint_Inr [OF this]
  have vol: "pricingVol p = (case impliedVol p of
                           None \<Rightarrow> 0.2
                         | Some v \<Rightarrow> if v \<noteq> 0 then v else (case sigma p of None \<Rightarrow> 0.2 | Some s \<Rightarrow> s))"
    by (simp add: pricingVol_def orElse_def impliedVol'_def sigma'_def dflt_def split: option.splits)
  have opt: "assetClass p = OPTION \<Longrightarrow>
       shownValue (domainLogic p k s)
         = price (calculateBS s (strikePrice' p) (max 0.0001 (expiryTime' p - real k / 365))
                    (riskFreeRate' p) (pricingVol p) (isCall' p)) \<and>
       shownGreeks (domainLogic p k s)
         = Some (greeks (calculateBS s (strikePrice' p) (max 0.0001 (expiryTime' p - real k / 365))
                    (riskFreeRate' p) (pricingVol p) (isCall' p)))"
    by (simp add: domainLogic_def Let_def)
  have swp: "assetClass p = SWAPTION \<Longrightarrow>
       shownValue (domainLogic p k s)
         = price (calculateBlackSwaption s (orElse (strikePrice' p / 1000) 0.03)
                    (max 0.0001 (expiryTime' p - real k / 365))
                    (riskFreeRate' p) (pricingVol p) (isCall' p)) \<and>
       shownGreeks (domainLogic p k s)
         = Some (greeks (calculateBlackSwaption s (orElse (strikePrice' p / 1000) 0.03)
                    (max 0.0001 (expiryTime' p - real k / 365))
                    (riskFreeRate' p) (pricingVol p) (isCall' p)))"
    by (simp add: domainLogic_def Let_def)
  show ?thesis using vol opt swp pt by simp
qed

text \<open>
  Claim C10. The volatility handed to the pricers should be the supplied implied volatility
  when it is present and not zero, and \<open>sigma\<close> otherwise. It is so for an implied volatility
  that is supplied (one of exactly 0 is replaced by \<open>sigma\<close>), and not for one that is left
  out: the default 0.2 of \<^verbatim>\<open>impliedVol\<close> is applied before \<^verbatim>\<open>impliedVol || sigma\<close>, so the
  fallback to \<open>sigma\<close> is not reached, while the parameter form shows
  \<^verbatim>\<open>params.impliedVol || params.sigma\<close>. In the run of \<open>absentImpliedVol\<close>, with \<open>sigma = 0.35\<close>
  and no implied volatility, the first point carries the Greeks of the pricer called with
  0.2, whose vega is not that of the pricer called with 0.35.
\<close>

theorem absent_implied_vol_is_not_sigma:
  "pricingVol absentImpliedVol = 1 / 5 \<and> sigma' absentImpliedVol = 7 / 20 \<and>
   pricingVol zeroImpliedVol = 7 / 20 \<and>
   pointGreeks (pathOf (generateSynthesizedData utcHost absentImpliedVol (quietDraws 7)) ! 0)
     = Some (greeks (calculateBS 100 100 1 (3 / 100) (1 / 5) True)) \<and>
   vega (greeks (calculateBS 100 100 1 (3 / 100) (1 / 5) True))
     \<noteq> vega (greeks (calculateBS 100 100 1 (3 / 100) (7 / 20) True))"
proof -
  let ?path = "pathOf (generateSynthesizedData utcHost absentImpliedVol (quietDraws 7))"
  have th: "timeHorizon absentImpliedVol = real 1"
    by (simp add: absentImpliedVol_def INITIAL_PARAMS_def)
  have dr: "7 * Suc 1 \<le> nonZeroDraws (quietDraws 7)" by (simp add: nonZeroDraws_quietDraws)
  have "length ?path = Suc 1"
    by (rule path_length [OF th dr]) (simp_all add: datesValid_utcHost)
  then have k: "0 < length ?path" by simp
  have fields: "initialValue absentImpliedVol = 100"
    "assetClass absentImpliedVol = OPTION" "strikePrice' absentImpliedVol = 100"
    "riskFreeRate' absentImpliedVol = 3 / 100" "pricingVol absentImpliedVol = 1 / 5"
    "isCall' absentImpliedVol = True" "expiryTime' absentImpliedVol = 1"
    "sigma' absentImpliedVol = 7 / 20"
    by (simp_all add: absentImpliedVol_def INITIAL_PARAMS_def pricingVol_def orElse_def defaults)
  have z: "pricingVol zeroImpliedVol = 7 / 20"
    by (simp add: zeroImpliedVol_def INITIAL_PARAMS_def pricingVol_def orElse_def defaults)
  from makePoint_Inr [OF path_first [OF k]]
  have "pointGreeks (?path ! 0) = shownGreeks (domainLogic absentImpliedVol 0 (initialValue absentImpliedVol))"
    by simp
  also have "\<dots> = Some (greeks (calculateBS 100 100 1 (3 / 100) (1 / 5) True))"
    by (simp add: domainLogic_def Let_def fields)
  finally have g: "pointGreeks (?path ! 0) = Some (greeks (calculateBS 100 100 1 (3 / 100) (1 / 5) True))" .
  have v: "vega (greeks (calculateBS 100 100 1 (3 / 100) (1 / 5) True))
             \<noteq> vega (greeks (calculateBS 100 100 1 (3 / 100) (7 / 20) True))"
    by (simp add: calculateBS_def Let_def normalPDF_def)
  show ?thesis using fields(5,8) z g v by simp
qed

end
